theory Spec2Isabelle
  imports Main "HOL-Library.Multiset"
begin

section \<open>Strings\<close>

text \<open>
  Python \<open>str\<close> values are modelled as \<open>string\<close>, one character for each code
  point, for texts whose code points are below 256.
  \<open>startswith s p\<close> is \<open>s.startswith(p)\<close>, \<open>str_split sep s\<close> is \<open>s.split(sep)\<close>
  for a non-empty separator (the only use the program makes of it), and
  \<open>contains s p\<close> is \<open>p in s\<close>.
\<close>

definition startswith :: "string \<Rightarrow> string \<Rightarrow> bool" where
  "startswith s p = (take (length p) s = p)"

function str_split_from :: "string \<Rightarrow> string \<Rightarrow> string \<Rightarrow> string list" where
  "str_split_from sep acc [] = [rev acc]"
| "str_split_from sep acc (c # cs) =
     (if sep \<noteq> [] \<and> startswith (c # cs) sep
      then rev acc # str_split_from sep [] (drop (length sep) (c # cs))
      else str_split_from sep (c # acc) cs)"
  by pat_completeness auto
termination
  by (relation "measure (\<lambda>(sep, acc, s). length s)") (auto simp: neq_Nil_conv)

definition str_split :: "string \<Rightarrow> string \<Rightarrow> string list" where
  "str_split sep s = str_split_from sep [] s"

fun contains :: "string \<Rightarrow> string \<Rightarrow> bool" where
  "contains [] p = (p = [])"
| "contains (c # cs) p = (startswith (c # cs) p \<or> contains cs p)"

text \<open>
  \<open>isspace\<close> is \<open>str.isspace\<close> on the code points below 256, \<open>strip\<close> is
  \<open>str.strip()\<close>, and \<open>lower\<close> is \<open>str.lower()\<close> on the same range.
\<close>

definition isspace :: "char \<Rightarrow> bool" where
  "isspace c = ((of_char c :: nat) \<in> {9, 10, 11, 12, 13, 28, 29, 30, 31, 32, 133, 160})"

definition strip :: "string \<Rightarrow> string" where
  "strip s = rev (dropWhile isspace (rev (dropWhile isspace s)))"

definition lower_char :: "char \<Rightarrow> char" where
  "lower_char c =
     (let n = (of_char c :: nat)
      in if (65 \<le> n \<and> n \<le> 90) \<or> (192 \<le> n \<and> n \<le> 222 \<and> n \<noteq> 215)
         then char_of (n + 32) else c)"

definition lower :: "string \<Rightarrow> string" where
  "lower s = map lower_char s"

text \<open>\<open>str_nat n\<close> is \<open>str(n)\<close> for a non-negative integer.\<close>

fun str_nat :: "nat \<Rightarrow> string" where
  "str_nat n =
     (if n < 10 then [char_of (48 + n)]
      else str_nat (n div 10) @ [char_of (48 + n mod 10)])"

text \<open>\<open>join sep xs\<close> is \<open>sep.join(xs)\<close>.\<close>

fun join :: "string \<Rightarrow> string list \<Rightarrow> string" where
  "join sep [] = []"
| "join sep [x] = x"
| "join sep (x # y # ys) = x @ sep @ join sep (y # ys)"

section \<open>Sets and dictionaries with an iteration order\<close>

text \<open>
  A Python \<open>set\<close> is kept as the list of its elements in the order of their first
  insertion, without repetition; a \<open>dict\<close> as an association list in insertion
  order, which is the order in which Python iterates over it. Python fixes no
  iteration order for a set: wherever the program iterates over one, the model applies
  a parameter \<open>set_iter\<close> to the stored list, and the results are proved for every
  \<open>set_iter\<close> that returns a rearrangement of its argument (\<open>iteration_order\<close>).
\<close>

definition set_add :: "'a \<Rightarrow> 'a list \<Rightarrow> 'a list" where
  "set_add x s = (if x \<in> set s then s else s @ [x])"

definition set_of_list :: "'a list \<Rightarrow> 'a list" where
  "set_of_list xs = fold set_add xs []"

definition iteration_order :: "(string list \<Rightarrow> string list) \<Rightarrow> bool" where
  "iteration_order set_iter = (\<forall>xs. mset (set_iter xs) = mset xs)"

fun dict_set :: "'k \<Rightarrow> 'v \<Rightarrow> ('k \<times> 'v) list \<Rightarrow> ('k \<times> 'v) list" where
  "dict_set k v [] = [(k, v)]"
| "dict_set k v ((k', v') # d) = (if k' = k then (k, v) # d else (k', v') # dict_set k v d)"

text \<open>
  \<open>dict_default d k dflt\<close> is the value a \<open>defaultdict\<close> gives for \<open>d[k]\<close>: the stored
  value, or the default (which \<open>dict_set\<close> then stores).
\<close>

definition dict_default :: "('k \<times> 'v) list \<Rightarrow> 'k \<Rightarrow> 'v \<Rightarrow> 'v" where
  "dict_default d k dflt = (case map_of d k of None \<Rightarrow> dflt | Some v \<Rightarrow> v)"

section \<open>Exceptions and the environment\<close>

datatype py_exception =
  SyntaxError | ValueError | IndexError | RecursionError | MemoryError | OSError

type_synonym import_alias = "string \<times> string option"

text \<open>
  The syntax tree that \<open>ast.parse\<close> returns, as far as the import visitor looks at it:
  an \<open>Import\<close> node with its aliases (name, asname), an \<open>ImportFrom\<close> node with its
  module (\<open>None\<close> for \<open>from . import x\<close>) and its aliases, and any other node with its
  children in field order.
\<close>

datatype py_ast =
    Import "import_alias list"
  | ImportFrom "string option" "import_alias list"
  | Node "py_ast list"

text \<open>
  What the program asks of the file system, of the interpreter and of the libraries
  \<open>pathlib\<close>, \<open>ast\<close> and \<open>re\<close> is a parameter of the model.
  \<open>path_exists\<close> is \<open>Path(p).exists()\<close>, the first call the program makes on its
  input: it answers, or it raises \<open>OSError\<close> (a name too long for the file system, a
  parent directory that may not be searched). The program asks \<open>path_is_file\<close> and
  \<open>path_is_dir\<close> only of a path for which \<open>path_exists\<close> has answered \<open>True\<close>.
  \<open>frames_left\<close> is the number of nested
  calls of the cycle search that the interpreter's recursion limit still allows when
  the search starts. Each \<open>re_\<close> field stands for
  \<open>re.finditer\<close> with one fixed pattern of the source and gives, for each match in
  order, the groups the program reads:
  \<^item> \<open>re_py_import\<close>: \<^verbatim>\<open>^import\s+([\w\.,\s]+)\<close> (multiline), group 1;
  \<^item> \<open>re_py_from\<close>: \<^verbatim>\<open>^from\s+([\w\.]+)\s+import\s+([\w\*,\s]+)\<close> (multiline), groups 1 and 2;
  \<^item> \<open>re_js_default\<close>, \<open>re_js_named\<close>, \<open>re_js_namespace\<close>, \<open>re_js_require\<close>:
    the four JavaScript patterns with two groups, groups 1 and 2;
  \<^item> \<open>re_js_dynamic\<close>: the dynamic import pattern, group 1;
  \<^item> \<open>re_java_import\<close>: the Java import pattern, groups 0 and 1;
  \<^item> \<open>re_go_single\<close>, \<open>re_go_block\<close>: the two Go patterns, group 1;
  \<^item> \<open>re_go_line\<close>: the pattern applied to a Go import block, groups 1 (absent when
    there is no alias) and 2.
\<close>

record environment =
  path_exists :: "string \<Rightarrow> py_exception + bool"
  path_is_file :: "string \<Rightarrow> bool"
  path_is_dir :: "string \<Rightarrow> bool"
  path_str :: "string \<Rightarrow> string"
  path_parent :: "string \<Rightarrow> string"
  path_suffix :: "string \<Rightarrow> string"
  path_relative_to :: "string \<Rightarrow> string \<Rightarrow> py_exception + string"
  path_rglob :: "string \<Rightarrow> string \<Rightarrow> string list"
  read_text :: "string \<Rightarrow> string option"
  frames_left :: nat
  ast_parse :: "string \<Rightarrow> py_exception + py_ast"
  re_py_import :: "string \<Rightarrow> string list"
  re_py_from :: "string \<Rightarrow> (string \<times> string) list"
  re_js_default :: "string \<Rightarrow> (string \<times> string) list"
  re_js_named :: "string \<Rightarrow> (string \<times> string) list"
  re_js_namespace :: "string \<Rightarrow> (string \<times> string) list"
  re_js_require :: "string \<Rightarrow> (string \<times> string) list"
  re_js_dynamic :: "string \<Rightarrow> string list"
  re_java_import :: "string \<Rightarrow> (string \<times> string) list"
  re_go_single :: "string \<Rightarrow> string list"
  re_go_block :: "string \<Rightarrow> string list"
  re_go_line :: "string \<Rightarrow> (string option \<times> string) list"

section \<open>Language detection and file discovery\<close>

definition EXTENSION_TO_LANGUAGE :: "(string \<times> string) list" where
  "EXTENSION_TO_LANGUAGE =
     [(''.py'', ''python''), (''.js'', ''javascript''), (''.mjs'', ''javascript''),
      (''.cjs'', ''javascript''), (''.jsx'', ''javascript''), (''.ts'', ''typescript''),
      (''.tsx'', ''typescript''), (''.java'', ''java''), (''.go'', ''go'')]"

definition detect_language :: "environment \<Rightarrow> string \<Rightarrow> string" where
  "detect_language env file_path =
     (let ext = lower (path_suffix env file_path)
      in case map_of EXTENSION_TO_LANGUAGE ext of None \<Rightarrow> ''unknown'' | Some lang \<Rightarrow> lang)"

definition get_source_files :: "environment \<Rightarrow> string \<Rightarrow> string \<Rightarrow> string list" where
  "get_source_files env path language =
     (if path_is_file env path then [path_str env path]
      else if \<not> path_is_dir env path then []
      else
        (let extensions =
               (if language = ''auto'' then map fst EXTENSION_TO_LANGUAGE
                else map fst (filter (\<lambda>(ext, lang). lang = language) EXTENSION_TO_LANGUAGE))
         in concat (map (\<lambda>ext. path_rglob env path (''*'' @ ext)) extensions)))"

section \<open>Import parsers\<close>

text \<open>An import record is \<open>(module, import type, symbols)\<close>.\<close>

type_synonym import_record = "string \<times> string \<times> string list"

text \<open>
  \<open>PythonImportVisitor\<close>: \<open>visit\<close> collects the records in the order in which the
  visitor appends them. \<open>alias.asname or alias.name\<close> takes the name when the asname
  is absent or empty, \<open>node.module or ""\<close> the empty string when the module is absent.
\<close>

fun visit :: "py_ast \<Rightarrow> import_record list" where
  "visit (Import names) =
     map (\<lambda>(name, asname).
            (name, ''direct'',
             [case asname of None \<Rightarrow> name | Some a \<Rightarrow> (if a = [] then name else a)])) names"
| "visit (ImportFrom module names) =
     [(case module of None \<Rightarrow> [] | Some m \<Rightarrow> m, ''from'', map fst names)]"
| "visit (Node children) = concat (map visit children)"

definition parse_python_imports_regex :: "environment \<Rightarrow> string \<Rightarrow> import_record list" where
  "parse_python_imports_regex env code =
     concat (map (\<lambda>group1.
               map (\<lambda>module. (hd (str_split ''.'' module), ''direct'', [module]))
                 (filter (\<lambda>module. module \<noteq> []) (map strip (str_split '','' group1))))
             (re_py_import env code))
     @ map (\<lambda>(module, group2). (module, ''from'', map strip (str_split '','' group2)))
         (re_py_from env code)"

text \<open>
  \<open>parse_python_imports\<close>: the \<open>try\<close> block parses and visits, and the handler
  catches \<open>SyntaxError\<close> only; any other exception leaves the function. \<open>ast_parse\<close>
  stands for the whole of the block's failures: for a text whose tree is too deep for
  the recursion of the visitor it answers \<open>RecursionError\<close>.
\<close>

definition parse_python_imports :: "environment \<Rightarrow> string \<Rightarrow> py_exception + import_record list" where
  "parse_python_imports env code =
     (case ast_parse env code of
        Inr tree \<Rightarrow> Inr (visit tree)
      | Inl SyntaxError \<Rightarrow> Inr (parse_python_imports_regex env code)
      | Inl e \<Rightarrow> Inl e)"

definition parse_js_imports :: "environment \<Rightarrow> string \<Rightarrow> import_record list" where
  "parse_js_imports env code =
     map (\<lambda>(g1, g2). (g2, ''default'', [g1])) (re_js_default env code)
     @ map (\<lambda>(g1, g2).
              (g2, ''named'', map (\<lambda>s. hd (str_split '' as '' (strip s))) (str_split '','' g1)))
         (re_js_named env code)
     @ map (\<lambda>(g1, g2). (g2, ''namespace'', [g1])) (re_js_namespace env code)
     @ map (\<lambda>(g1, g2). (g2, ''require'', [g1])) (re_js_require env code)
     @ map (\<lambda>g1. (g1, ''dynamic'', [])) (re_js_dynamic env code)"

definition parse_java_imports :: "environment \<Rightarrow> string \<Rightarrow> import_record list" where
  "parse_java_imports env code =
     map (\<lambda>(group0, full_import).
            (let is_static = contains group0 ''static'';
                 import_type = (if is_static then ''static'' else ''direct'');
                 parts = str_split ''.'' full_import;
                 symbol = (if parts \<noteq> [] then last parts else full_import)
             in (full_import, import_type, [symbol])))
       (re_java_import env code)"

definition parse_go_imports :: "environment \<Rightarrow> string \<Rightarrow> import_record list" where
  "parse_go_imports env code =
     map (\<lambda>g1. (g1, ''direct'', [])) (re_go_single env code)
     @ concat (map (\<lambda>block.
                 map (\<lambda>(group1, path).
                        (let alias = (case group1 of None \<Rightarrow> [] | Some a \<Rightarrow> a);
                             import_type = (if alias \<noteq> [] then ''aliased'' else ''direct'')
                         in (path, import_type, if alias \<noteq> [] then [alias] else [])))
                   (re_go_line env block))
               (re_go_block env code))"

text \<open>
  \<open>parse_file_imports\<close>: a file that cannot be read has no imports; the parsers run
  outside the \<open>try\<close> block.
\<close>

definition parse_file_imports :: "environment \<Rightarrow> string \<Rightarrow> string \<Rightarrow> py_exception + import_record list" where
  "parse_file_imports env file_path language =
     (case read_text env file_path of
        None \<Rightarrow> Inr []
      | Some code \<Rightarrow>
          if language = ''python'' then parse_python_imports env code
          else if language = ''javascript'' \<or> language = ''typescript'' then Inr (parse_js_imports env code)
          else if language = ''java'' then Inr (parse_java_imports env code)
          else if language = ''go'' then Inr (parse_go_imports env code)
          else Inr [])"


section \<open>Dependency classification\<close>

definition PYTHON_STDLIB :: "string set" where
  "PYTHON_STDLIB = {
    ''os'', ''sys'', ''re'', ''json'', ''time'', ''datetime'', ''pathlib'', ''collections'',
    ''itertools'', ''functools'', ''typing'', ''abc'', ''ast'', ''io'', ''math'', ''random'',
    ''subprocess'', ''threading'', ''multiprocessing'', ''logging'', ''unittest'',
    ''argparse'', ''configparser'', ''dataclasses'', ''enum'', ''copy'', ''hashlib'',
    ''base64'', ''urllib'', ''http'', ''socket'', ''email'', ''html'', ''xml'', ''sqlite3''}"

definition JAVASCRIPT_BUILTIN :: "string set" where
  "JAVASCRIPT_BUILTIN = {
    ''fs'', ''path'', ''http'', ''https'', ''crypto'', ''os'', ''child_process'', ''events'',
    ''stream'', ''util'', ''url'', ''querystring'', ''assert'', ''buffer'', ''cluster'',
    ''dns'', ''net'', ''process'', ''readline'', ''tls'', ''vm'', ''zlib''}"

text \<open>
  \<open>is_external_dependency module language source_file\<close>: \<open>True\<close> means external.
  The branches are those of the source, in its order; \<open>hd (str_split ''.'' module)\<close> is
  \<open>module.split(".")[0]\<close> (the split of any string has at least one field).
\<close>

definition is_external_dependency :: "string \<Rightarrow> string \<Rightarrow> string \<Rightarrow> bool" where
  "is_external_dependency module language source_file =
     (if startswith module ''.'' then False
      else if language = ''python'' then
        (let root_module = hd (str_split ''.'' module) in root_module \<notin> PYTHON_STDLIB)
      else if language = ''javascript'' \<or> language = ''typescript'' then
        (if startswith module ''.'' \<or> startswith module ''/'' then False
         else if module \<in> JAVASCRIPT_BUILTIN \<or> startswith module ''node:'' then True
         else True)
      else if language = ''java'' then
        \<not> (startswith module ''java.'' \<or> startswith module ''javax.'')
      else if language = ''go'' then
        (contains module ''.'' \<or> contains module ''/'')
      else True)"

section \<open>Cycle detection\<close>

text \<open>
  The argument \<open>edges\<close> of \<open>find_circular_dependencies\<close> is a dictionary from a node to a set of
  nodes: here an association list whose value lists are the sets in the order in
  which the program iterates over them. \<open>edges_get edges node\<close> is
  \<open>edges.get(node, set())\<close>, and \<open>list_index path node\<close> is \<open>path.index(node)\<close>, which
  raises \<open>ValueError\<close> when the node is not in the list (\<open>None\<close> here).
\<close>

type_synonym adjacency = "(string \<times> string list) list"

fun list_index :: "'a list \<Rightarrow> 'a \<Rightarrow> nat option" where
  "list_index [] y = None"
| "list_index (x # xs) y = (if x = y then Some 0 else map_option Suc (list_index xs y))"

definition edges_get :: "adjacency \<Rightarrow> string \<Rightarrow> string list" where
  "edges_get edges node = (case map_of edges node of None \<Rightarrow> [] | Some ns \<Rightarrow> ns)"

text \<open>
  The three variables the nested function \<open>dfs\<close> shares with its caller. \<open>visited\<close> is
  only ever tested for membership.
\<close>

record dfs_state =
  cycles :: "string list list"
  visited :: "string set"
  rec_stack :: "string list"

text \<open>
  \<open>dfs\<close> is the nested function, \<open>dfs_neighbors\<close> its \<open>for\<close> loop over the neighbours.
  \<open>rec_stack.pop()\<close> raises \<open>IndexError\<close> on an empty list. The recursion has no guard
  of its own: the interpreter raises \<open>RecursionError\<close> at a call that would exceed its
  recursion limit. \<open>frames\<close> is the number of nested calls of \<open>dfs\<close> still allowed: a
  call made with none left raises, and the calls made by the loop of a running call
  have one fewer.
\<close>

function dfs :: "nat \<Rightarrow> adjacency \<Rightarrow> string \<Rightarrow> string list \<Rightarrow> dfs_state \<Rightarrow> py_exception + dfs_state"
  and dfs_neighbors :: "nat \<Rightarrow> adjacency \<Rightarrow> string list \<Rightarrow> string list \<Rightarrow> dfs_state \<Rightarrow> py_exception + dfs_state"
where
  "dfs frames edges node path st =
     (if frames = 0 then Inl RecursionError
      else if node \<in> set (rec_stack st) then
        (case list_index path node of
           None \<Rightarrow> Inl ValueError
         | Some cycle_start \<Rightarrow>
             (let cycle = drop cycle_start path @ [node] in
              if length cycle > 1 \<and> cycle \<notin> set (cycles st)
              then Inr (st\<lparr>cycles := cycles st @ [cycle]\<rparr>)
              else Inr st))
      else if node \<in> visited st then Inr st
      else
        (case dfs_neighbors (frames - 1) edges (edges_get edges node) (path @ [node])
                (st\<lparr>visited := insert node (visited st), rec_stack := rec_stack st @ [node]\<rparr>) of
           Inl e \<Rightarrow> Inl e
         | Inr st' \<Rightarrow>
             (if rec_stack st' = [] then Inl IndexError
              else Inr (st'\<lparr>rec_stack := butlast (rec_stack st')\<rparr>))))"
| "dfs_neighbors frames edges [] path st = Inr st"
| "dfs_neighbors frames edges (neighbor # rest) path st =
     (case dfs frames edges neighbor path st of
        Inl e \<Rightarrow> Inl e
      | Inr st' \<Rightarrow> dfs_neighbors frames edges rest path st')"
  by pat_completeness auto
termination
  by (relation "measures
        [\<lambda>x. case x of Inl (frames, edges, node, path, st) \<Rightarrow> frames
                  | Inr (frames, edges, ns, path, st) \<Rightarrow> frames,
         \<lambda>x. case x of Inl _ \<Rightarrow> 0 | Inr (frames, edges, ns, path, st) \<Rightarrow> Suc (length ns)]")
     auto

text \<open>The loop \<open>for node in edges: if node not in visited: dfs(node, [])\<close>.\<close>

fun dfs_roots :: "nat \<Rightarrow> adjacency \<Rightarrow> string list \<Rightarrow> dfs_state \<Rightarrow> py_exception + dfs_state" where
  "dfs_roots frames edges [] st = Inr st"
| "dfs_roots frames edges (node # rest) st =
     (if node \<notin> visited st then
        (case dfs frames edges node [] st of
           Inl e \<Rightarrow> Inl e
         | Inr st' \<Rightarrow> dfs_roots frames edges rest st')
      else dfs_roots frames edges rest st)"

definition find_circular_dependencies :: "nat \<Rightarrow> adjacency \<Rightarrow> py_exception + string list list" where
  "find_circular_dependencies frames edges =
     (case dfs_roots frames edges (map fst edges) \<lparr>cycles = [], visited = {}, rec_stack = []\<rparr> of
        Inl e \<Rightarrow> Inl e
      | Inr st \<Rightarrow> Inr (take 10 (cycles st)))"

text \<open>
  A cycle of the data model is a sequence of node ids whose first and last element are
  equal; \<open>closed_walks cs\<close> says that every sequence in \<open>cs\<close> is one.
\<close>

definition closed_walks :: "string list list \<Rightarrow> bool" where
  "closed_walks cs = (\<forall>c \<in> set cs. c \<noteq> [] \<and> hd c = last c)"

section \<open>Dependency mapping\<close>

text \<open>
  The request and response models. A field keeps its name in the source unless two
  models share it or it is a constant of HOL: \<open>source\<close> and \<open>target\<close> are
  \<open>dep_source\<close> and \<open>dep_target\<close> in \<open>InternalDependency\<close>, \<open>edge_source\<close> and
  \<open>edge_target\<close> in \<open>GraphEdge\<close>; \<open>id\<close>, \<open>type\<close> and \<open>path\<close> of \<open>GraphNode\<close> are
  \<open>node_id\<close>, \<open>node_type\<close> and \<open>node_path\<close>; \<open>path\<close> of \<open>HighlyDepended\<close> is
  \<open>hd_path\<close>. The language of a request is a string; the value \<open>None\<close>, which the
  source also admits, behaves like any string that names no known language.
\<close>

record ExecuteInputs =
  source_path :: string
  language :: string
  depth :: int
  include_external :: bool
  output_format :: string

record InternalDependency =
  dep_source :: string
  dep_target :: string
  import_type :: string
  symbols :: "string list"

record ExternalDependency =
  name :: string
  used_in :: "string list"
  import_count :: nat

record GraphNode =
  node_id :: string
  node_type :: string
  node_path :: string

record GraphEdge =
  edge_source :: string
  edge_target :: string
  weight :: int

record DependencyGraph =
  nodes :: "GraphNode list"
  edges :: "GraphEdge list"

record HighlyDepended =
  hd_path :: string
  dependents_count :: nat

record MapOutputs =
  summary :: string
  total_dependencies :: nat
  internal_dependencies :: "InternalDependency list"
  external_dependencies :: "ExternalDependency list"
  dependency_graph :: DependencyGraph
  circular_dependencies :: "string list list"
  entry_points :: "string list"
  highly_depended :: "HighlyDepended list"

text \<open>
  \<open>MapOutputs(summary=s, total_dependencies=0)\<close>: every other field takes its default.
\<close>

definition MapOutputs_default :: "string \<Rightarrow> MapOutputs" where
  "MapOutputs_default s =
     \<lparr>summary = s, total_dependencies = 0, internal_dependencies = [],
      external_dependencies = [], dependency_graph = \<lparr>nodes = [], edges = []\<rparr>,
      circular_dependencies = [], entry_points = [], highly_depended = []\<rparr>"

text \<open>
  The variables the scanning loop of \<open>map_dependencies\<close> updates. An entry of
  \<open>external_deps_map\<close> holds the \<open>used_in\<close> list and the count; \<open>edge_sets\<close> is the
  dictionary \<open>edges\<close> of the source, from a file to the set of its internal targets.
\<close>

record scan_state =
  internal_deps :: "InternalDependency list"
  external_deps_map :: "(string \<times> (string list \<times> nat)) list"
  edge_sets :: "(string \<times> string list) list"
  all_nodes :: "string list"
  external_nodes :: "string list"

definition scan_init :: scan_state where
  "scan_init = \<lparr>internal_deps = [], external_deps_map = [], edge_sets = [],
                all_nodes = [], external_nodes = []\<rparr>"

text \<open>
  \<open>add_edge relative_path module d\<close> is the update \<open>edges[relative_path].add(module)\<close>
  of the \<open>defaultdict(set)\<close>.
\<close>

definition add_edge :: "string \<Rightarrow> string \<Rightarrow> (string \<times> string list) list \<Rightarrow> (string \<times> string list) list" where
  "add_edge rel module d = dict_set rel (set_add module (dict_default d rel [])) d"

text \<open>The body of the inner loop, for one import record of one file.\<close>

definition scan_import :: "bool \<Rightarrow> string \<Rightarrow> string \<Rightarrow> string \<Rightarrow> import_record \<Rightarrow> scan_state \<Rightarrow> scan_state" where
  "scan_import incl_external file_path file_lang relative_path imp st =
     (case imp of (module, imp_type, syms) \<Rightarrow>
        if module = [] then st
        else if is_external_dependency module file_lang file_path then
          (if incl_external then
             (let root_module = hd (str_split ''.'' (hd (str_split ''/'' module)));
                  info = dict_default (external_deps_map st) root_module ([], 0)
              in st\<lparr>external_deps_map :=
                       dict_set root_module (fst info @ [relative_path], snd info + 1)
                         (external_deps_map st),
                     external_nodes := set_add root_module (external_nodes st)\<rparr>)
           else st)
        else
          st\<lparr>internal_deps := internal_deps st @
                  [\<lparr>dep_source = relative_path, dep_target = module,
                    import_type = imp_type, symbols = syms\<rparr>],
              edge_sets := add_edge relative_path module (edge_sets st),
              all_nodes := set_add module (all_nodes st)\<rparr>)"

text \<open>
  The body of the outer loop, for one file: the language of the file, its imports, its
  path relative to the scan root (\<open>relative_to\<close> raises \<open>ValueError\<close> for a path
  outside its argument), then the inner loop. An exception ends the scan.
\<close>

definition file_language :: "environment \<Rightarrow> ExecuteInputs \<Rightarrow> string \<Rightarrow> string" where
  "file_language env inputs file_path =
     (if language inputs \<noteq> ''auto'' then language inputs else detect_language env file_path)"

definition relative_path_of :: "environment \<Rightarrow> ExecuteInputs \<Rightarrow> string \<Rightarrow> py_exception + string" where
  "relative_path_of env inputs file_path =
     (if path_is_file env (source_path inputs)
      then path_relative_to env file_path (path_parent env (source_path inputs))
      else path_relative_to env file_path (source_path inputs))"

definition scan_file :: "environment \<Rightarrow> ExecuteInputs \<Rightarrow> string \<Rightarrow> scan_state \<Rightarrow> py_exception + scan_state" where
  "scan_file env inputs file_path st =
     (let file_lang = file_language env inputs file_path
      in case parse_file_imports env file_path file_lang of
           Inl e \<Rightarrow> Inl e
         | Inr imports \<Rightarrow>
             (case relative_path_of env inputs file_path of
                Inl e \<Rightarrow> Inl e
              | Inr relative_path \<Rightarrow>
                  Inr (fold (scan_import (include_external inputs) file_path file_lang relative_path)
                         imports (st\<lparr>all_nodes := set_add relative_path (all_nodes st)\<rparr>))))"

fun scan_files :: "environment \<Rightarrow> ExecuteInputs \<Rightarrow> string list \<Rightarrow> scan_state \<Rightarrow> py_exception + scan_state" where
  "scan_files env inputs [] st = Inr st"
| "scan_files env inputs (file_path # rest) st =
     (case scan_file env inputs file_path st of
        Inl e \<Rightarrow> Inl e
      | Inr st' \<Rightarrow> scan_files env inputs rest st')"

text \<open>
  What follows the loop. \<open>sorted(..., key=count, reverse=True)\<close> is a stable sort in
  descending order of the count: \<open>sort_key\<close> on the negated count.
\<close>

definition build_external_deps :: "(string list \<Rightarrow> string list) \<Rightarrow> scan_state \<Rightarrow> ExternalDependency list" where
  "build_external_deps set_iter st =
     map (\<lambda>(nm, info). \<lparr>name = nm, used_in = take 10 (set_iter (set_of_list (fst info))),
                         import_count = snd info\<rparr>)
       (sort_key (\<lambda>(nm, info). - int (snd info)) (external_deps_map st))"

definition build_graph_nodes :: "(string list \<Rightarrow> string list) \<Rightarrow> scan_state \<Rightarrow> GraphNode list" where
  "build_graph_nodes set_iter st =
     map (\<lambda>n. \<lparr>node_id = n, node_type = ''internal'', node_path = n\<rparr>) (set_iter (all_nodes st))
     @ map (\<lambda>n. \<lparr>node_id = n, node_type = ''external'', node_path = n\<rparr>) (set_iter (external_nodes st))"

definition build_graph_edges :: "(string list \<Rightarrow> string list) \<Rightarrow> scan_state \<Rightarrow> GraphEdge list" where
  "build_graph_edges set_iter st =
     concat (map (\<lambda>(src, targets).
                    map (\<lambda>t. \<lparr>edge_source = src, edge_target = t, weight = 1\<rparr>) (set_iter targets))
                 (edge_sets st))"

definition all_targets :: "(string list \<Rightarrow> string list) \<Rightarrow> scan_state \<Rightarrow> string list" where
  "all_targets set_iter st =
     fold (\<lambda>t_set acc. fold set_add (set_iter t_set) acc) (map snd (edge_sets st)) []"

definition find_entry_points :: "(string list \<Rightarrow> string list) \<Rightarrow> scan_state \<Rightarrow> string list" where
  "find_entry_points set_iter st =
     filter (\<lambda>n. n \<notin> set (all_targets set_iter st) \<and> n \<in> set (map fst (edge_sets st)))
       (set_iter (all_nodes st))"

definition build_highly_depended :: "(string list \<Rightarrow> string list) \<Rightarrow> scan_state \<Rightarrow> HighlyDepended list" where
  "build_highly_depended set_iter st =
     (let dependent_counts =
            fold (\<lambda>t d. dict_set t (length (filter (\<lambda>(src, deps). t \<in> set deps) (edge_sets st))) d)
              (set_iter (all_targets set_iter st)) []
      in map (\<lambda>(p, c). \<lparr>hd_path = p, dependents_count = c\<rparr>)
           (take 10 (sort_key (\<lambda>(p, c). - int c) dependent_counts)))"

definition build_summary :: "nat \<Rightarrow> nat \<Rightarrow> nat \<Rightarrow> string list list \<Rightarrow> HighlyDepended list \<Rightarrow> string" where
  "build_summary n_files n_internal n_external circular highly =
     join '' ''
       ([''Analyzed '' @ str_nat n_files @ '' file(s).'',
         ''Found '' @ str_nat n_internal @ '' internal and '' @ str_nat n_external
           @ '' external dependencies.'']
        @ (if circular \<noteq> []
           then [''Detected '' @ str_nat (length circular) @ '' circular dependency chain(s).'']
           else [])
        @ (case highly of
             [] \<Rightarrow> []
           | top_dep # _ \<Rightarrow> [''Most depended: '' @ hd_path top_dep @ '' (''
                          @ str_nat (dependents_count top_dep) @ '' dependents).'']))"

definition assemble :: "(string list \<Rightarrow> string list) \<Rightarrow> nat \<Rightarrow> nat \<Rightarrow> scan_state \<Rightarrow> py_exception + MapOutputs" where
  "assemble set_iter frames n_files st =
     (let external_deps = build_external_deps set_iter st;
          graph_nodes = build_graph_nodes set_iter st;
          graph_edges = build_graph_edges set_iter st
      in case find_circular_dependencies frames
                (map (\<lambda>(src, targets). (src, set_iter targets)) (edge_sets st)) of
           Inl e \<Rightarrow> Inl e
         | Inr circular \<Rightarrow>
             (let entry = find_entry_points set_iter st;
                  highly = build_highly_depended set_iter st;
                  total = length (internal_deps st) + length external_deps
              in Inr \<lparr>summary = build_summary n_files (length (internal_deps st))
                                  (length external_deps) circular highly,
                      total_dependencies = total,
                      internal_dependencies = take 100 (internal_deps st),
                      external_dependencies = take 50 external_deps,
                      dependency_graph = \<lparr>nodes = take 200 graph_nodes, edges = take 500 graph_edges\<rparr>,
                      circular_dependencies = circular,
                      entry_points = take 20 entry,
                      highly_depended = highly\<rparr>))"

definition map_dependencies :: "(string list \<Rightarrow> string list) \<Rightarrow> environment \<Rightarrow> ExecuteInputs \<Rightarrow> py_exception + MapOutputs" where
  "map_dependencies set_iter env inputs =
     (case path_exists env (source_path inputs) of
        Inl e \<Rightarrow> Inl e
      | Inr False \<Rightarrow> Inr (MapOutputs_default (''Path not found: '' @ source_path inputs))
      | Inr True \<Rightarrow>
          (let source_files = get_source_files env (source_path inputs) (language inputs)
           in if source_files = []
              then Inr (MapOutputs_default (''No source files found in: '' @ source_path inputs))
              else
                (case scan_files env inputs source_files scan_init of
                   Inl e \<Rightarrow> Inl e
                 | Inr st \<Rightarrow> assemble set_iter (frames_left env) (length source_files) st)))"

text \<open>
  An invariant of the scanning loop: every key of \<open>edge_sets\<close> has a non-empty target
  set, and the key and its targets are in \<open>all_nodes\<close>.
\<close>

definition edges_within_nodes :: "scan_state \<Rightarrow> bool" where
  "edges_within_nodes st =
     (\<forall>(k, ts) \<in> set (edge_sets st). ts \<noteq> [] \<and> k \<in> set (all_nodes st) \<and> set ts \<subseteq> set (all_nodes st))"

text \<open>
  \<open>internal_targets\<close> lists, for the import records of one file, the targets that the
  inner loop takes on its internal branch: the non-empty modules classified not
  external.
\<close>

definition internal_targets :: "string \<Rightarrow> string \<Rightarrow> import_record list \<Rightarrow> string list" where
  "internal_targets file_path file_lang imports =
     map fst (filter (\<lambda>(module, imp_type, syms).
                        module \<noteq> [] \<and> \<not> is_external_dependency module file_lang file_path)
                imports)"

section \<open>Example environments\<close>

text \<open>
  Concrete environments on which the definitions are evaluated. \<open>bare_environment\<close> is
  an empty file system under an interpreter with 900 frames left of its default limit
  of 1000; the others change the fields their scan reads.
\<close>

definition bare_environment :: environment where
  "bare_environment =
     \<lparr>path_exists = (\<lambda>p. Inr False), path_is_file = (\<lambda>p. False), path_is_dir = (\<lambda>p. False),
      path_str = (\<lambda>p. p), path_parent = (\<lambda>p. []), path_suffix = (\<lambda>p. []),
      path_relative_to = (\<lambda>p b. if startswith p (b @ ''/'') then Inr (drop (length b + 1) p)
                                 else Inl ValueError),
      path_rglob = (\<lambda>p pat. []),
      read_text = (\<lambda>p. None), frames_left = 900, ast_parse = (\<lambda>c. Inl SyntaxError),
      re_py_import = (\<lambda>c. []), re_py_from = (\<lambda>c. []), re_js_default = (\<lambda>c. []),
      re_js_named = (\<lambda>c. []), re_js_namespace = (\<lambda>c. []), re_js_require = (\<lambda>c. []),
      re_js_dynamic = (\<lambda>c. []), re_java_import = (\<lambda>c. []), re_go_single = (\<lambda>c. []),
      re_go_block = (\<lambda>c. []), re_go_line = (\<lambda>c. [])\<rparr>"

text \<open>A request for the directory \<open>proj\<close> with every other input at its default.\<close>

definition scan_proj :: ExecuteInputs where
  "scan_proj = \<lparr>source_path = ''proj'', language = ''auto'', depth = 3,
                 include_external = True, output_format = ''summary''\<rparr>"

text \<open>
  The directory \<open>proj\<close> holds \<open>os.py\<close> with the line \<open>import json.py\<close> and \<open>json.py\<close>
  with the line \<open>import os.py\<close>: each target has a standard-library root, so it is
  classified not external, and it is spelled like the other file's node id.
\<close>

definition stdlib_named_environment :: environment where
  "stdlib_named_environment = bare_environment
     \<lparr>path_exists := (\<lambda>p. Inr (p = ''proj'')), path_is_dir := (\<lambda>p. p = ''proj''),
      path_suffix := (\<lambda>p. if p = ''proj/os.py'' \<or> p = ''proj/json.py'' then ''.py'' else []),
      path_rglob := (\<lambda>p pat. if p = ''proj'' \<and> pat = ''*.py''
                              then [''proj/os.py'', ''proj/json.py''] else []),
      read_text := (\<lambda>p. if p = ''proj/os.py'' then Some ''import json.py''
                        else if p = ''proj/json.py'' then Some ''import os.py'' else None),
      ast_parse := (\<lambda>c. if c = ''import json.py'' then Inr (Node [Import [(''json.py'', None)]])
                        else if c = ''import os.py'' then Inr (Node [Import [(''os.py'', None)]])
                        else Inl SyntaxError)\<rparr>"

text \<open>
  The directory \<open>proj\<close> holds \<open>a.js\<close> with the line \<open>import b from "./b"\<close> and \<open>b.js\<close>
  with the line \<open>import a from "./a"\<close>.
\<close>

definition relative_js_environment :: environment where
  \<open>relative_js_environment = bare_environment
     \<lparr>path_exists := (\<lambda>p. Inr (p = ''proj'')), path_is_dir := (\<lambda>p. p = ''proj''),
      path_suffix := (\<lambda>p. if p = ''proj/a.js'' \<or> p = ''proj/b.js'' then ''.js'' else []),
      path_rglob := (\<lambda>p pat. if p = ''proj'' \<and> pat = ''*.js''
                              then [''proj/a.js'', ''proj/b.js''] else []),
      read_text := (\<lambda>p. if p = ''proj/a.js'' then Some ''import b from "./b"''
                        else if p = ''proj/b.js'' then Some ''import a from "./a"'' else None),
      re_js_default := (\<lambda>c. if c = ''import b from "./b"'' then [(''b'', ''./b'')]
                            else if c = ''import a from "./a"'' then [(''a'', ''./a'')]
                            else [])\<rparr>\<close>

text \<open>
  The file \<open>broken.py\<close> holds the text \<open>import os, sys (\<close>, which is not valid Python:
  the parser raises \<open>SyntaxError\<close>, and the first pattern matches once, with group 1
  the text \<open>os, sys \<close>.
\<close>

definition broken_python_environment :: environment where
  "broken_python_environment = bare_environment
     \<lparr>path_exists := (\<lambda>p. Inr (p = ''broken.py'')), path_is_file := (\<lambda>p. p = ''broken.py''),
      path_suffix := (\<lambda>p. if p = ''broken.py'' then ''.py'' else []),
      read_text := (\<lambda>p. if p = ''broken.py'' then Some ''import os, sys ('' else None),
      re_py_import := (\<lambda>c. if c = ''import os, sys ('' then [''os, sys ''] else [])\<rparr>"

text \<open>
  The directory \<open>proj\<close> holds the single file \<open>a.js\<close> with \<open>n\<close> statements
  \<open>import x from "./m";\<close>, \<open>import x from "./mm";\<close> and so on, each with one more
  \<open>m\<close>: \<open>n\<close> internal imports of \<open>n\<close> different targets. \<open>many_deps n\<close> are the
  dependency records of that file.
\<close>

definition many_modules :: "nat \<Rightarrow> string list" where
  "many_modules n = map (\<lambda>i. ''./'' @ replicate (Suc i) (CHR ''m'')) [0..<n]"

definition many_imports_code :: "nat \<Rightarrow> string" where
  \<open>many_imports_code n = concat (map (\<lambda>m. ''import x from "'' @ m @ ''";'') (many_modules n))\<close>

definition many_imports_environment :: "nat \<Rightarrow> environment" where
  "many_imports_environment n = bare_environment
     \<lparr>path_exists := (\<lambda>p. Inr (p = ''proj'')), path_is_dir := (\<lambda>p. p = ''proj''),
      path_suffix := (\<lambda>p. if p = ''proj/a.js'' then ''.js'' else []),
      path_rglob := (\<lambda>p pat. if p = ''proj'' \<and> pat = ''*.js'' then [''proj/a.js''] else []),
      read_text := (\<lambda>p. if p = ''proj/a.js'' then Some (many_imports_code n) else None),
      re_js_default := (\<lambda>c. if c = many_imports_code n
                            then map (\<lambda>m. (''x'', m)) (many_modules n) else [])\<rparr>"

definition many_deps :: "nat \<Rightarrow> InternalDependency list" where
  "many_deps n = map (\<lambda>m. \<lparr>dep_source = ''a.js'', dep_target = m, import_type = ''default'',
                           symbols = [''x'']\<rparr>) (many_modules n)"

text \<open>
  The file \<open>proj/test.py\<close>, scanned on its own as a Python file, imports \<open>os\<close>,
  \<open>json\<close> and, from \<open>fastapi\<close>, \<open>FastAPI\<close>.
\<close>

definition scan_test_py :: ExecuteInputs where
  "scan_test_py = \<lparr>source_path = ''proj/test.py'', language = ''python'', depth = 3,
                    include_external = True, output_format = ''summary''\<rparr>"

definition single_python_environment :: environment where
  "single_python_environment = bare_environment
     \<lparr>path_exists := (\<lambda>p. Inr (p = ''proj/test.py'')), path_is_file := (\<lambda>p. p = ''proj/test.py''),
      path_parent := (\<lambda>p. if p = ''proj/test.py'' then ''proj'' else []),
      path_suffix := (\<lambda>p. if p = ''proj/test.py'' then ''.py'' else []),
      read_text := (\<lambda>p. if p = ''proj/test.py'' then Some ''import os; import json; from fastapi import FastAPI''
                        else None),
      ast_parse := (\<lambda>c. if c = ''import os; import json; from fastapi import FastAPI''
                        then Inr (Node [Import [(''os'', None)], Import [(''json'', None)],
                                        ImportFrom (Some ''fastapi'') [(''FastAPI'', None)]])
                        else Inl SyntaxError)\<rparr>"

text \<open>
  An adjacency map that is one chain: node \<open>i\<close> is \<open>i + 1\<close> letters \<open>n\<close> and its only
  neighbour is node \<open>i + 1\<close>, for \<open>i\<close> below \<open>n\<close>.
\<close>

definition chain_node :: "nat \<Rightarrow> string" where
  "chain_node i = replicate (Suc i) (CHR ''n'')"

definition chain_graph :: "nat \<Rightarrow> adjacency" where
  "chain_graph n = map (\<lambda>i. (chain_node i, [chain_node (Suc i)])) [0..<n]"



declare dfs.simps [simp del]

section \<open>Outcomes of the depth-first search\<close>

lemma list_index_mem:
  "x \<in> set xs \<Longrightarrow> \<exists>i. list_index xs x = Some i"
  by (induction xs) auto

lemma list_index_SomeD:
  "list_index xs x = Some i \<Longrightarrow> i < length xs \<and> xs ! i = x"
  by (induction xs arbitrary: i) (auto split: if_splits)

lemma edges_get_not_key: "node \<notin> fst ` set adj \<Longrightarrow> edges_get adj node = []"
  by (force simp: edges_get_def split: option.splits dest!: map_of_SomeD)

lemma card_unvisited_insert:
  assumes "node \<in> fst ` set adj" "node \<notin> seen"
  shows "card (fst ` set adj - seen) = Suc (card (fst ` set adj - insert node seen))"
proof -
  have "fst ` set adj - seen = insert node (fst ` set adj - insert node seen)"
    using assms by auto
  then show ?thesis
    by (metis Diff_iff card_insert_disjoint finite_Diff finite_imageI finite_set insertI1)
qed

lemma card_unvisited_mono:
  "seen \<subseteq> seen' \<Longrightarrow> card (fst ` set adj - seen') \<le> card (fst ` set adj - seen)"
  by (intro card_mono) auto

text \<open>
  A call made with the recursion stack equal to the path argument either returns, with
  the stack as it found it and no node forgotten, or raises \<open>RecursionError\<close>, and that
  only when the frames left are no more than the keys not yet visited. It raises
  neither \<open>ValueError\<close> nor \<open>IndexError\<close>. Every nested call is made with the node
  appended to both the stack and the path.
\<close>

lemma dfs_outcome:
  "rec_stack st = path \<Longrightarrow>
     (case dfs frames adj node path st of
        Inr st' \<Rightarrow> rec_stack st' = path \<and> visited st \<subseteq> visited st'
      | Inl e \<Rightarrow> e = RecursionError \<and> frames \<le> card (fst ` set adj - visited st))"
  "rec_stack st = path \<Longrightarrow>
     (case dfs_neighbors frames adj ns path st of
        Inr st' \<Rightarrow> rec_stack st' = path \<and> visited st \<subseteq> visited st'
      | Inl e \<Rightarrow> e = RecursionError \<and> frames \<le> card (fst ` set adj - visited st))"
proof (induction frames adj node path st and frames adj ns path st rule: dfs_dfs_neighbors.induct)
  case (1 frames adj node path st)
  show ?case
  proof (cases "frames = 0")
    case True
    then show ?thesis by (subst dfs.simps) simp
  next
    case frames: False
    show ?thesis
    proof (cases "node \<in> set (rec_stack st)")
      case True
      with 1(2) have "node \<in> set path" by simp
      then obtain i where "list_index path node = Some i"
        using list_index_mem by fastforce
      with frames True 1(2) show ?thesis
        by (subst dfs.simps) (simp add: Let_def)
    next
      case False
      show ?thesis
      proof (cases "node \<in> visited st")
        case True
        with frames False 1(2) show ?thesis by (subst dfs.simps) simp
      next
        case unvisited: False
        let ?st2 = "st\<lparr>visited := insert node (visited st), rec_stack := rec_stack st @ [node]\<rparr>"
        let ?run = "dfs_neighbors (frames - 1) adj (edges_get adj node) (path @ [node]) ?st2"
        from 1(2) have "rec_stack ?st2 = path @ [node]" by simp
        note IH = 1(1)[OF frames False unvisited this]
        have unfold: "dfs frames adj node path st =
            (case ?run of Inl e \<Rightarrow> Inl e
             | Inr st' \<Rightarrow> if rec_stack st' = [] then Inl IndexError
                          else Inr (st'\<lparr>rec_stack := butlast (rec_stack st')\<rparr>))"
          using frames False unvisited by (subst dfs.simps) simp
        show ?thesis
        proof (cases ?run)
          case (Inr st')
          with IH have "rec_stack st' = path @ [node]" "insert node (visited st) \<subseteq> visited st'"
            by simp_all
          with Inr show ?thesis
            unfolding unfold by auto
        next
          case (Inl e)
          with IH have e: "e = RecursionError"
            and few: "frames - 1 \<le> card (fst ` set adj - insert node (visited st))"
            by simp_all
          have key: "node \<in> fst ` set adj"
          proof (rule ccontr)
            assume "node \<notin> fst ` set adj"
            then have "edges_get adj node = []" by (rule edges_get_not_key)
            with Inl show False by simp
          qed
          from card_unvisited_insert[OF key unvisited] few
          have "frames \<le> card (fst ` set adj - visited st)" by simp
          with Inl e show ?thesis
            unfolding unfold by simp
        qed
      qed
    qed
  qed
next
  case (2 frames adj path st)
  then show ?case by simp
next
  case (3 frames adj neighbor rest path st)
  note first = 3(1)[OF 3(3)]
  show ?case
  proof (cases "dfs frames adj neighbor path st")
    case (Inl e)
    with first show ?thesis by simp
  next
    case (Inr st1)
    with first have stack1: "rec_stack st1 = path" and seen1: "visited st \<subseteq> visited st1"
      by simp_all
    note rest = 3(2)[OF Inr stack1]
    show ?thesis
    proof (cases "dfs_neighbors frames adj rest path st1")
      case (Inl e)
      with rest have "e = RecursionError" "frames \<le> card (fst ` set adj - visited st1)"
        by simp_all
      with card_unvisited_mono[OF seen1, of adj] Inr Inl show ?thesis by simp
    next
      case inner: (Inr st2)
      with rest seen1 Inr show ?thesis by auto
    qed
  qed
qed

lemma dfs_roots_outcome:
  "rec_stack st = [] \<Longrightarrow>
     (case dfs_roots frames adj roots st of
        Inr st' \<Rightarrow> rec_stack st' = []
      | Inl e \<Rightarrow> e = RecursionError \<and> frames \<le> card (fst ` set adj - visited st))"
proof (induction roots arbitrary: st)
  case Nil
  then show ?case by simp
next
  case (Cons node rest)
  show ?case
  proof (cases "node \<in> visited st")
    case True
    with Cons show ?thesis by simp
  next
    case False
    note first = dfs_outcome(1)[OF Cons.prems, of frames adj node]
    show ?thesis
    proof (cases "dfs frames adj node [] st")
      case (Inl e)
      with first False show ?thesis by simp
    next
      case (Inr st1)
      with first have stack1: "rec_stack st1 = []" and seen1: "visited st \<subseteq> visited st1"
        by simp_all
      note rest = Cons.IH[OF stack1]
      show ?thesis
      proof (cases "dfs_roots frames adj rest st1")
        case (Inl e)
        with rest have "e = RecursionError" "frames \<le> card (fst ` set adj - visited st1)"
          by simp_all
        with card_unvisited_mono[OF seen1, of adj] Inr Inl False show ?thesis by simp
      next
        case inner: (Inr st2)
        with rest Inr False show ?thesis by simp
      qed
    qed
  qed
qed

lemma find_circular_dependencies_outcome:
  "(\<exists>cs. find_circular_dependencies frames adj = Inr cs)
   \<or> (find_circular_dependencies frames adj = Inl RecursionError \<and> frames \<le> length adj)"
proof -
  let ?init = "\<lparr>cycles = [], visited = {}, rec_stack = []\<rparr>"
  have keys: "card (fst ` set adj) \<le> length adj"
    by (metis card_length length_map list.set_map)
  note roots = dfs_roots_outcome[of ?init frames adj "map fst adj"]
  show ?thesis
  proof (cases "dfs_roots frames adj (map fst adj) ?init")
    case (Inl e)
    with roots keys show ?thesis
      by (simp add: find_circular_dependencies_def)
  next
    case (Inr st')
    then show ?thesis
      by (simp add: find_circular_dependencies_def)
  qed
qed

lemma find_circular_dependencies_returns:
  "length adj < frames \<Longrightarrow> \<exists>cs. find_circular_dependencies frames adj = Inr cs"
  using find_circular_dependencies_outcome[of frames adj] by auto

section \<open>Every recorded cycle is a closed walk\<close>

lemma dfs_closed_walks:
  "closed_walks (cycles st) \<Longrightarrow> dfs frames adj node path st = Inr st' \<Longrightarrow>
     closed_walks (cycles st')"
  "closed_walks (cycles st) \<Longrightarrow> dfs_neighbors frames adj ns path st = Inr st' \<Longrightarrow>
     closed_walks (cycles st')"
proof (induction frames adj node path st and frames adj ns path st arbitrary: st' and st'
       rule: dfs_dfs_neighbors.induct)
  case (1 frames adj node path st)
  from 1(3) have frames: "frames \<noteq> 0"
    by (subst (asm) dfs.simps) (auto split: if_splits)
  show ?case
  proof (cases "node \<in> set (rec_stack st)")
    case True
    with frames 1(3) obtain i where idx: "list_index path node = Some i"
      by (subst (asm) dfs.simps) (auto split: option.splits)
    then have i: "i < length path" "path ! i = node"
      using list_index_SomeD by fastforce+
    then have "hd (drop i path @ [node]) = node"
      by (simp add: hd_append hd_drop_conv_nth)
    with frames True idx 1(2,3) show ?thesis
      by (subst (asm) dfs.simps) (auto simp: Let_def closed_walks_def split: if_splits)
  next
    case False
    show ?thesis
    proof (cases "node \<in> visited st")
      case True
      with frames False 1(2,3) show ?thesis by (subst (asm) dfs.simps) simp
    next
      case unvisited: False
      let ?st2 = "st\<lparr>visited := insert node (visited st), rec_stack := rec_stack st @ [node]\<rparr>"
      from 1(3) frames False unvisited obtain st1 where
        run: "dfs_neighbors (frames - 1) adj (edges_get adj node) (path @ [node]) ?st2 = Inr st1"
        and res: "st' = st1\<lparr>rec_stack := butlast (rec_stack st1)\<rparr>"
        by (subst (asm) dfs.simps) (auto split: sum.splits if_splits)
      from 1(2) have "closed_walks (cycles ?st2)" by simp
      from 1(1)[OF frames False unvisited this run] res show ?thesis by simp
    qed
  qed
next
  case (2 frames adj path st)
  then show ?case by simp
next
  case (3 frames adj neighbor rest path st)
  from 3(4) obtain st1 where first: "dfs frames adj neighbor path st = Inr st1"
    and more: "dfs_neighbors frames adj rest path st1 = Inr st'"
    by (auto split: sum.splits)
  from 3(2)[OF first 3(1)[OF 3(3) first] more] show ?case .
qed

lemma dfs_roots_closed_walks:
  "closed_walks (cycles st) \<Longrightarrow> dfs_roots frames adj roots st = Inr st' \<Longrightarrow>
     closed_walks (cycles st')"
proof (induction roots arbitrary: st)
  case Nil
  then show ?case by simp
next
  case (Cons node rest)
  then show ?case
    by (auto split: if_splits sum.splits dest: dfs_closed_walks(1))
qed

lemma find_circular_dependencies_closed_walks:
  assumes "find_circular_dependencies frames adj = Inr cs"
  shows "length cs \<le> 10 \<and> closed_walks cs"
proof -
  from assms obtain st' where
    run: "dfs_roots frames adj (map fst adj) \<lparr>cycles = [], visited = {}, rec_stack = []\<rparr> = Inr st'"
    and cs: "cs = take 10 (cycles st')"
    by (auto simp: find_circular_dependencies_def split: sum.splits)
  have "closed_walks (cycles st')"
    using dfs_roots_closed_walks[OF _ run] by (simp add: closed_walks_def)
  then have "closed_walks cs"
    unfolding cs closed_walks_def by (meson in_set_takeD)
  with cs show ?thesis by simp
qed

section \<open>Facts about strings\<close>

lemma str_split_from_nonempty: "str_split_from sep acc s \<noteq> []"
  by (induction sep acc s rule: str_split_from.induct) auto

lemma str_split_nonempty: "str_split sep s \<noteq> []"
  by (simp add: str_split_def str_split_from_nonempty)

lemma contains_char: "contains s [c] = (c \<in> set s)"
  by (induction s) (auto simp: startswith_def)

lemma hd_str_split_from_char:
  "hd (str_split_from [c] acc s) = rev acc @ takeWhile (\<lambda>x. x \<noteq> c) s"
  by (induction "[c]" acc s rule: str_split_from.induct) (auto simp: startswith_def)

lemma hd_str_split_char: "hd (str_split [c] s) = takeWhile (\<lambda>x. x \<noteq> c) s"
  by (simp add: str_split_def hd_str_split_from_char)

section \<open>Classification of Python and Go targets\<close>

text \<open>
  C1 (as the code has it). For a Python import target that does not begin with \<open>.\<close>, the
  classifier answers external exactly when the root token, the text before the first
  \<open>.\<close>, is not in the fixed standard-library set: a standard-library root is classified
  not external, every other root external.
\<close>

theorem python_nonrelative_external_iff_not_stdlib:
  "\<not> startswith module ''.'' \<Longrightarrow>
     is_external_dependency module ''python'' source_file
       = (takeWhile (\<lambda>c. c \<noteq> CHR ''.'') module \<notin> PYTHON_STDLIB)"
  by (simp add: is_external_dependency_def hd_str_split_char)

theorem python_nonrelative_external_iff_not_stdlib_witness:
  "\<not> startswith ''fastapi.routing'' ''.'' \<and>
   is_external_dependency ''fastapi.routing'' ''python'' ''app.py''
   \<and> ''fastapi'' \<notin> PYTHON_STDLIB"
  using python_nonrelative_external_iff_not_stdlib [of "''fastapi.routing''" "''app.py''"]
  by (simp add: startswith_def PYTHON_STDLIB_def)

text \<open>
  The claim as stated fails at the target \<open>os\<close>: it does not begin with \<open>.\<close>, and the
  classifier answers not external.
\<close>

theorem python_stdlib_not_external_counterexample:
  "\<not> startswith ''os'' ''.'' \<and> \<not> is_external_dependency ''os'' ''python'' ''''"
  by (simp add: is_external_dependency_def startswith_def str_split_def PYTHON_STDLIB_def)

text \<open>
  C4 (as the code has it). A Go import target with no \<open>/\<close> and no \<open>.\<close> is classified not
  external: the classifier answers external for a Go target exactly when it holds a
  \<open>.\<close> or a \<open>/\<close> and does not begin with \<open>.\<close>.
\<close>

theorem go_plain_target_not_external:
  "CHR ''.'' \<notin> set module \<Longrightarrow> CHR ''/'' \<notin> set module \<Longrightarrow>
     \<not> is_external_dependency module ''go'' source_file"
  by (simp add: is_external_dependency_def contains_char)

theorem go_plain_target_not_external_witness:
  "CHR ''.'' \<notin> set ''fmt'' \<and> CHR ''/'' \<notin> set ''fmt''
   \<and> \<not> is_external_dependency ''fmt'' ''go'' ''main.go''"
  using go_plain_target_not_external [of "''fmt''" "''main.go''"] by simp

theorem go_plain_target_external_counterexample:
  "CHR ''.'' \<notin> set ''net'' \<and> CHR ''/'' \<notin> set ''net''
   \<and> is_external_dependency ''net'' ''go'' ''server.go'' = False"
  by (simp add: is_external_dependency_def startswith_def)

section \<open>Outputs of the example scans\<close>

lemma stdlib_named_scan_output:
  "map_dependencies (\<lambda>xs. xs) stdlib_named_environment scan_proj =
     Inr \<lparr>summary = ''Analyzed 2 file(s). Found 2 internal and 0 external dependencies. Detected 1 circular dependency chain(s). Most depended: json.py (1 dependents).'',
          total_dependencies = 2,
          internal_dependencies =
            [\<lparr>dep_source = ''os.py'', dep_target = ''json.py'',
               import_type = ''direct'', symbols = [''json.py'']\<rparr>,
             \<lparr>dep_source = ''json.py'', dep_target = ''os.py'',
               import_type = ''direct'', symbols = [''os.py'']\<rparr>],
          external_dependencies = [],
          dependency_graph =
            \<lparr>nodes = [\<lparr>node_id = ''os.py'', node_type = ''internal'', node_path = ''os.py''\<rparr>,
                      \<lparr>node_id = ''json.py'', node_type = ''internal'', node_path = ''json.py''\<rparr>],
             edges = [\<lparr>edge_source = ''os.py'', edge_target = ''json.py'', weight = 1\<rparr>,
                      \<lparr>edge_source = ''json.py'', edge_target = ''os.py'', weight = 1\<rparr>]\<rparr>,
          circular_dependencies = [[''os.py'', ''json.py'', ''os.py'']],
          entry_points = [],
          highly_depended = [\<lparr>hd_path = ''json.py'', dependents_count = 1\<rparr>,
                             \<lparr>hd_path = ''os.py'', dependents_count = 1\<rparr>]\<rparr>"
  by code_simp

lemma relative_js_scan_output:
  "map_dependencies (\<lambda>xs. xs) relative_js_environment scan_proj =
     Inr \<lparr>summary = ''Analyzed 2 file(s). Found 2 internal and 0 external dependencies. Most depended: ./b (1 dependents).'',
          total_dependencies = 2,
          internal_dependencies =
            [\<lparr>dep_source = ''a.js'', dep_target = ''./b'',
               import_type = ''default'', symbols = [''b'']\<rparr>,
             \<lparr>dep_source = ''b.js'', dep_target = ''./a'',
               import_type = ''default'', symbols = [''a'']\<rparr>],
          external_dependencies = [],
          dependency_graph =
            \<lparr>nodes = [\<lparr>node_id = ''a.js'', node_type = ''internal'', node_path = ''a.js''\<rparr>,
                      \<lparr>node_id = ''./b'', node_type = ''internal'', node_path = ''./b''\<rparr>,
                      \<lparr>node_id = ''b.js'', node_type = ''internal'', node_path = ''b.js''\<rparr>,
                      \<lparr>node_id = ''./a'', node_type = ''internal'', node_path = ''./a''\<rparr>],
             edges = [\<lparr>edge_source = ''a.js'', edge_target = ''./b'', weight = 1\<rparr>,
                      \<lparr>edge_source = ''b.js'', edge_target = ''./a'', weight = 1\<rparr>]\<rparr>,
          circular_dependencies = [],
          entry_points = [''a.js'', ''b.js''],
          highly_depended = [\<lparr>hd_path = ''./b'', dependents_count = 1\<rparr>,
                             \<lparr>hd_path = ''./a'', dependents_count = 1\<rparr>]\<rparr>"
  by code_simp

lemma two_cycle_found:
  "find_circular_dependencies 900 [(''a'', [''b'']), (''b'', [''a''])] = Inr [[''a'', ''b'', ''a'']]"
  by code_simp

lemma iteration_order_id: "iteration_order (\<lambda>xs. xs)"
  by (simp add: iteration_order_def)

section \<open>Cycle detection: totality and shape of the result\<close>

lemma map_dependencies_circular:
  "map_dependencies set_iter env inputs = Inr out \<Longrightarrow>
     circular_dependencies out = [] \<or>
     (\<exists>frames adj. find_circular_dependencies frames adj = Inr (circular_dependencies out))"
  by (auto simp: map_dependencies_def assemble_def MapOutputs_default_def Let_def
           split: if_splits sum.splits bool.splits)

text \<open>
  C10 (as the code has it). In a call of \<open>dfs\<close> made with the recursion stack equal to
  the path argument, a node found on the stack is in the path, so the position lookup
  succeeds; the call either returns with the stack equal to the path again, which is
  how every nested call finds them equal too, or it raises \<open>RecursionError\<close>. So
  \<open>find_circular_dependencies\<close> raises neither \<open>ValueError\<close> nor \<open>IndexError\<close>: it
  returns a list of cycles or raises \<open>RecursionError\<close>, and it returns for every
  adjacency map with fewer keys than the interpreter has frames left.
\<close>

theorem dfs_lookup_succeeds_returns_within_frames:
  "(rec_stack st = path \<longrightarrow> node \<in> set (rec_stack st) \<longrightarrow> (\<exists>i. list_index path node = Some i))
   \<and> (rec_stack st = path \<longrightarrow>
        (\<exists>st'. dfs frames adj node path st = Inr st' \<and> rec_stack st' = path)
        \<or> dfs frames adj node path st = Inl RecursionError)
   \<and> ((\<exists>cs. find_circular_dependencies frames adj = Inr cs)
        \<or> find_circular_dependencies frames adj = Inl RecursionError)
   \<and> (length adj < frames \<longrightarrow> (\<exists>cs. find_circular_dependencies frames adj = Inr cs))"
proof (intro conjI impI)
  assume "rec_stack st = path" "node \<in> set (rec_stack st)"
  then show "\<exists>i. list_index path node = Some i"
    using list_index_mem[of node path] by simp
next
  assume "rec_stack st = path"
  from dfs_outcome(1)[OF this, of frames adj node]
  show "(\<exists>st'. dfs frames adj node path st = Inr st' \<and> rec_stack st' = path)
        \<or> dfs frames adj node path st = Inl RecursionError"
    by (cases "dfs frames adj node path st") auto
next
  show "(\<exists>cs. find_circular_dependencies frames adj = Inr cs)
        \<or> find_circular_dependencies frames adj = Inl RecursionError"
    using find_circular_dependencies_outcome[of frames adj] by blast
next
  assume "length adj < frames"
  then show "\<exists>cs. find_circular_dependencies frames adj = Inr cs"
    by (rule find_circular_dependencies_returns)
qed

theorem dfs_lookup_succeeds_returns_within_frames_witness:
  "rec_stack \<lparr>cycles = [], visited = {''a''}, rec_stack = [''a'']\<rparr> = [''a'']
   \<and> ''a'' \<in> set (rec_stack \<lparr>cycles = [], visited = {''a''}, rec_stack = [''a'']\<rparr>)
   \<and> (\<exists>i. list_index [''a''] ''a'' = Some i)
   \<and> (\<exists>st'. dfs 900 [(''a'', [''b'']), (''b'', [''a''])] ''a'' [''a'']
               \<lparr>cycles = [], visited = {''a''}, rec_stack = [''a'']\<rparr> = Inr st'
            \<and> rec_stack st' = [''a''])
   \<and> length [(''a'', [''b'']), (''b'', [''a''])] < (900 :: nat)
   \<and> (\<exists>cs. find_circular_dependencies 900 [(''a'', [''b'']), (''b'', [''a''])] = Inr cs)"
proof -
  have returns: "dfs 900 [(''a'', [''b'']), (''b'', [''a''])] ''a'' [''a'']
      \<lparr>cycles = [], visited = {''a''}, rec_stack = [''a'']\<rparr> \<noteq> Inl RecursionError"
    by (simp add: dfs.simps)
  from dfs_lookup_succeeds_returns_within_frames
    [of "\<lparr>cycles = [], visited = {''a''}, rec_stack = [''a'']\<rparr>" "[''a'']" "''a''"
        900 "[(''a'', [''b'']), (''b'', [''a''])]"] returns
  show ?thesis by simp
qed

text \<open>
  The claim C10 as stated fails on a chain of 1000 nodes, even with all 1000 frames of
  the default recursion limit left to the search: the call for the last node of the
  chain finds none left.
\<close>

lemma chain_graph_Suc:
  "chain_graph (Suc n) = chain_graph n @ [(chain_node n, [chain_node (Suc n)])]"
  by (simp add: chain_graph_def)

lemma chain_node_inj: "chain_node i = chain_node j \<longleftrightarrow> i = j"
proof
  assume "chain_node i = chain_node j"
  then have "length (chain_node i) = length (chain_node j)" by simp
  then show "i = j" by (simp add: chain_node_def)
qed simp

lemma chain_graph_keys: "fst ` set (chain_graph n) = chain_node ` {..<n}"
  by (auto simp: chain_graph_def image_image intro!: image_eqI)

lemma edges_get_chain:
  "i < n \<Longrightarrow> edges_get (chain_graph n) (chain_node i) = [chain_node (Suc i)]"
proof (induction n)
  case 0
  then show ?case by simp
next
  case (Suc n)
  show ?case
  proof (cases "i < n")
    case True
    with Suc.IH have "map_of (chain_graph n) (chain_node i) = Some [chain_node (Suc i)]"
      by (auto simp: edges_get_def split: option.splits
            dest!: map_of_eq_None_iff[THEN iffD1] simp: chain_graph_keys)
    then show ?thesis
      by (simp add: edges_get_def chain_graph_Suc map_add_def)
  next
    case False
    with Suc.prems have i: "i = n" by simp
    have "chain_node n \<notin> fst ` set (chain_graph n)"
      by (auto simp: chain_graph_keys chain_node_inj)
    then have "map_of (chain_graph n) (chain_node n) = None"
      by (simp add: map_of_eq_None_iff)
    then show ?thesis
      by (simp add: i edges_get_def chain_graph_Suc map_add_def)
  qed
qed

lemma chain_overflow:
  assumes "i + frames \<le> n"
    and "\<forall>j \<ge> i. chain_node j \<notin> visited st \<and> chain_node j \<notin> set (rec_stack st)"
  shows "dfs frames (chain_graph n) (chain_node i) path st = Inl RecursionError"
  using assms
proof (induction frames arbitrary: i path st)
  case 0
  then show ?case by (subst dfs.simps) simp
next
  case (Suc frames)
  let ?st2 = "st\<lparr>visited := insert (chain_node i) (visited st),
                  rec_stack := rec_stack st @ [chain_node i]\<rparr>"
  from Suc.prems(1) have i: "i < n" and deeper: "Suc i + frames \<le> n" by simp_all
  have fresh: "\<forall>j \<ge> Suc i. chain_node j \<notin> visited ?st2 \<and> chain_node j \<notin> set (rec_stack ?st2)"
    using Suc.prems(2) by (auto simp: chain_node_inj)
  have next_call: "dfs frames (chain_graph n) (chain_node (Suc i)) (path @ [chain_node i]) ?st2
      = Inl RecursionError"
    by (rule Suc.IH[OF deeper fresh])
  from Suc.prems(2) have new: "chain_node i \<notin> visited st" "chain_node i \<notin> set (rec_stack st)"
    by auto
  show ?case
    using new by (subst dfs.simps) (simp add: edges_get_chain[OF i] next_call)
qed

theorem deep_chain_exhausts_recursion_counterexample:
  "find_circular_dependencies 1000 (chain_graph 1000) = Inl RecursionError"
proof -
  let ?init = "\<lparr>cycles = [], visited = {}, rec_stack = []\<rparr>"
  have first: "dfs 1000 (chain_graph 1000) (chain_node 0) [] ?init = Inl RecursionError"
    by (rule chain_overflow) simp_all
  have "[0..<1000] = 0 # [Suc 0..<1000]"
    by (rule upt_conv_Cons) simp
  then obtain rest where "map fst (chain_graph 1000) = chain_node 0 # rest"
    unfolding chain_graph_def by (simp only: list.map fst_conv)
  with first show ?thesis
    by (simp add: find_circular_dependencies_def)
qed

text \<open>
  C5. The list that \<open>find_circular_dependencies\<close> returns, and so the
  \<open>circular_dependencies\<close> of every report, has at most 10 cycles, and each of them is a
  non-empty sequence whose first and last node id are equal.
\<close>

theorem circular_dependencies_at_most_10_closed:
  "(find_circular_dependencies frames adj = Inr cs \<longrightarrow>
      length cs \<le> 10 \<and> (\<forall>c \<in> set cs. c \<noteq> [] \<and> hd c = last c))
   \<and> (map_dependencies set_iter env inputs = Inr out \<longrightarrow>
      length (circular_dependencies out) \<le> 10
      \<and> (\<forall>c \<in> set (circular_dependencies out). c \<noteq> [] \<and> hd c = last c))"
proof (intro conjI impI)
  assume "find_circular_dependencies frames adj = Inr cs"
  from find_circular_dependencies_closed_walks[OF this]
  show "length cs \<le> 10" and "\<forall>c \<in> set cs. c \<noteq> [] \<and> hd c = last c"
    by (simp_all add: closed_walks_def)
next
  assume run: "map_dependencies set_iter env inputs = Inr out"
  from map_dependencies_circular[OF run]
  have "length (circular_dependencies out) \<le> 10 \<and> closed_walks (circular_dependencies out)"
  proof
    assume "circular_dependencies out = []"
    then show ?thesis by (simp add: closed_walks_def)
  next
    assume "\<exists>frames adj. find_circular_dependencies frames adj = Inr (circular_dependencies out)"
    then show ?thesis using find_circular_dependencies_closed_walks by blast
  qed
  then show "length (circular_dependencies out) \<le> 10"
    and "\<forall>c \<in> set (circular_dependencies out). c \<noteq> [] \<and> hd c = last c"
    by (simp_all add: closed_walks_def)
qed

theorem circular_dependencies_at_most_10_closed_witness:
  "find_circular_dependencies 900 [(''a'', [''b'']), (''b'', [''a''])] = Inr [[''a'', ''b'', ''a'']]
   \<and> length [[''a'', ''b'', ''a'']] \<le> 10
   \<and> hd [''a'', ''b'', ''a''] = last [''a'', ''b'', ''a'']
   \<and> (\<exists>out. map_dependencies (\<lambda>xs. xs) stdlib_named_environment scan_proj = Inr out
        \<and> circular_dependencies out = [[''os.py'', ''json.py'', ''os.py'']]
        \<and> length (circular_dependencies out) \<le> 10
        \<and> (\<forall>c \<in> set (circular_dependencies out). c \<noteq> [] \<and> hd c = last c))"
proof -
  obtain out where run: "map_dependencies (\<lambda>xs. xs) stdlib_named_environment scan_proj = Inr out"
    and circ: "circular_dependencies out = [[''os.py'', ''json.py'', ''os.py'']]"
    using stdlib_named_scan_output by simp
  from circular_dependencies_at_most_10_closed
    [of 900 "[(''a'', [''b'']), (''b'', [''a''])]" "[[''a'', ''b'', ''a'']]"
        "\<lambda>xs. xs" stdlib_named_environment scan_proj out]
    two_cycle_found run circ
  show ?thesis by auto
qed

section \<open>Nonexistent scan root\<close>




section \<open>Fallback of the Python parser\<close>

text \<open>
  C9. When \<open>ast.parse\<close> raises \<open>SyntaxError\<close> on a text, \<open>parse_python_imports\<close>
  returns, without an exception, exactly the records of \<open>parse_python_imports_regex\<close>
  on that text, and so does \<open>parse_file_imports\<close> for a Python file with that text:
  the scan goes on with these records.
\<close>

theorem syntax_error_falls_back_to_regex:
  "ast_parse env code = Inl SyntaxError \<Longrightarrow>
     parse_python_imports env code = Inr (parse_python_imports_regex env code)
     \<and> (read_text env file_path = Some code \<longrightarrow>
          parse_file_imports env file_path ''python'' = Inr (parse_python_imports_regex env code))"
  by (simp add: parse_python_imports_def parse_file_imports_def)

theorem syntax_error_falls_back_to_regex_witness:
  "ast_parse broken_python_environment ''import os, sys ('' = Inl SyntaxError
   \<and> read_text broken_python_environment ''broken.py'' = Some ''import os, sys (''
   \<and> parse_python_imports_regex broken_python_environment ''import os, sys (''
       = [(''os'', ''direct'', [''os'']), (''sys'', ''direct'', [''sys''])]
   \<and> parse_python_imports broken_python_environment ''import os, sys (''
       = Inr [(''os'', ''direct'', [''os'']), (''sys'', ''direct'', [''sys''])]
   \<and> parse_file_imports broken_python_environment ''broken.py'' ''python''
       = Inr [(''os'', ''direct'', [''os'']), (''sys'', ''direct'', [''sys''])]"
proof -
  have fails: "ast_parse broken_python_environment ''import os, sys ('' = Inl SyntaxError"
    by (simp add: broken_python_environment_def bare_environment_def)
  have content: "read_text broken_python_environment ''broken.py'' = Some ''import os, sys (''"
    by (simp add: broken_python_environment_def bare_environment_def)
  have regex: "parse_python_imports_regex broken_python_environment ''import os, sys (''
       = [(''os'', ''direct'', [''os'']), (''sys'', ''direct'', [''sys''])]"
    by code_simp
  from syntax_error_falls_back_to_regex[OF fails, of "''broken.py''"] fails content regex
  show ?thesis by simp
qed

section \<open>Invariants of the scan and fields of the report\<close>

lemma set_set_add: "set (set_add x s) = insert x (set s)"
  by (auto simp: set_add_def)

lemma set_add_not_Nil: "set_add x s \<noteq> []"
  by (auto simp: set_add_def)

lemma iteration_order_set: "iteration_order set_iter \<Longrightarrow> set (set_iter xs) = set xs"
  by (metis iteration_order_def mset_eq_setD)

lemma iteration_order_length: "iteration_order set_iter \<Longrightarrow> length (set_iter xs) = length xs"
  by (metis iteration_order_def mset_eq_length)

lemma dict_set_cases:
  "(k', v') \<in> set (dict_set k v d) \<Longrightarrow> (k' = k \<and> v' = v) \<or> (k', v') \<in> set d"
  by (induction d) (auto split: if_splits)

lemma dict_default_cases:
  "dict_default d k dflt = dflt \<or> (k, dict_default d k dflt) \<in> set d"
  by (auto simp: dict_default_def split: option.splits dest: map_of_SomeD)

lemma scan_import_all_nodes_mono:
  "set (all_nodes st) \<subseteq> set (all_nodes (scan_import incl fp lang rel imp st))"
  by (cases imp) (auto simp: scan_import_def Let_def set_set_add)

lemma scan_import_within:
  assumes "edges_within_nodes st" "rel \<in> set (all_nodes st)"
  shows "edges_within_nodes (scan_import incl fp lang rel imp st)"
proof -
  obtain module imp_type syms where imp: "imp = (module, imp_type, syms)"
    by (cases imp)
  show ?thesis
  proof (cases "module \<noteq> [] \<and> \<not> is_external_dependency module lang fp")
    case False
    with assms(1) show ?thesis
      by (auto simp: imp scan_import_def Let_def edges_within_nodes_def)
  next
    case True
    let ?old = "dict_default (edge_sets st) rel []"
    have old: "set ?old \<subseteq> set (all_nodes st)"
      using dict_default_cases[of "edge_sets st" rel "[]"] assms(1)
      by (auto simp: edges_within_nodes_def)
    have new: "scan_import incl fp lang rel imp st =
        st\<lparr>internal_deps := internal_deps st @
              [\<lparr>dep_source = rel, dep_target = module, import_type = imp_type, symbols = syms\<rparr>],
           edge_sets := dict_set rel (set_add module ?old) (edge_sets st),
           all_nodes := set_add module (all_nodes st)\<rparr>"
      using True by (simp add: imp scan_import_def add_edge_def)
    show ?thesis
      unfolding new edges_within_nodes_def
    proof (clarsimp simp: set_set_add)
      fix k ts
      assume "(k, ts) \<in> set (dict_set rel (set_add module ?old) (edge_sets st))"
      then consider "k = rel" "ts = set_add module ?old" | "(k, ts) \<in> set (edge_sets st)"
        using dict_set_cases by fastforce
      then show "ts \<noteq> [] \<and> (k = module \<or> k \<in> set (all_nodes st))
                 \<and> set ts \<subseteq> insert module (set (all_nodes st))"
      proof cases
        case 1
        with old assms(2) show ?thesis
          by (auto simp: set_set_add set_add_not_Nil)
      next
        case 2
        with assms(1) show ?thesis
          by (auto simp: edges_within_nodes_def)
      qed
    qed
  qed
qed

lemma fold_scan_import_within:
  "edges_within_nodes st \<Longrightarrow> rel \<in> set (all_nodes st) \<Longrightarrow>
     edges_within_nodes (fold (scan_import incl fp lang rel) imps st)"
proof (induction imps arbitrary: st)
  case Nil
  then show ?case by simp
next
  case (Cons imp imps)
  have "rel \<in> set (all_nodes (scan_import incl fp lang rel imp st))"
    using Cons.prems(2) scan_import_all_nodes_mono by blast
  with Cons show ?case
    by (simp add: scan_import_within)
qed

lemma scan_file_within:
  assumes "edges_within_nodes st" "scan_file env inputs fp st = Inr st'"
  shows "edges_within_nodes st'"
proof -
  from assms(2) obtain imps rel where
    st': "st' = fold (scan_import (include_external inputs) fp (file_language env inputs fp) rel)
                  imps (st\<lparr>all_nodes := set_add rel (all_nodes st)\<rparr>)"
    by (auto simp: scan_file_def Let_def split: sum.splits)
  have "edges_within_nodes (st\<lparr>all_nodes := set_add rel (all_nodes st)\<rparr>)"
    using assms(1) by (auto simp: edges_within_nodes_def set_set_add)
  then show ?thesis
    unfolding st' by (rule fold_scan_import_within) (simp add: set_set_add)
qed

lemma scan_files_within:
  "edges_within_nodes st \<Longrightarrow> scan_files env inputs files st = Inr st' \<Longrightarrow> edges_within_nodes st'"
proof (induction files arbitrary: st)
  case Nil
  then show ?case by simp
next
  case (Cons fp files)
  then show ?case
    by (auto split: sum.splits dest: scan_file_within)
qed

lemma scan_init_within: "edges_within_nodes scan_init"
  by (simp add: edges_within_nodes_def scan_init_def)

lemma map_dependencies_cases:
  assumes "map_dependencies set_iter env inputs = Inr out"
  obtains (absent) "out = MapOutputs_default (''Path not found: '' @ source_path inputs)"
      "path_exists env (source_path inputs) = Inr False"
  | (empty) "out = MapOutputs_default (''No source files found in: '' @ source_path inputs)"
      "path_exists env (source_path inputs) = Inr True"
      "get_source_files env (source_path inputs) (language inputs) = []"
  | (scanned) st where
      "scan_files env inputs (get_source_files env (source_path inputs) (language inputs)) scan_init = Inr st"
      "assemble set_iter (frames_left env)
         (length (get_source_files env (source_path inputs) (language inputs))) st = Inr out"
      "path_exists env (source_path inputs) = Inr True"
  using assms
  by (auto simp: map_dependencies_def Let_def split: if_splits sum.splits bool.splits)

lemma assemble_fields:
  assumes "assemble set_iter frames n st = Inr out"
  shows "total_dependencies out = length (internal_deps st) + length (external_deps_map st)"
    and "internal_dependencies out = take 100 (internal_deps st)"
    and "external_dependencies out = take 50 (build_external_deps set_iter st)"
    and "nodes (dependency_graph out) = take 200 (build_graph_nodes set_iter st)"
    and "edges (dependency_graph out) = take 500 (build_graph_edges set_iter st)"
    and "entry_points out = take 20 (find_entry_points set_iter st)"
    and "find_circular_dependencies frames
           (map (\<lambda>(src, targets). (src, set_iter targets)) (edge_sets st))
           = Inr (circular_dependencies out)"
  using assms
  by (auto simp: assemble_def Let_def build_external_deps_def split: sum.splits)

lemma assemble_returns:
  assumes "length (edge_sets st) < frames"
  shows "\<exists>out. assemble set_iter frames n st = Inr out"
proof -
  have "length (map (\<lambda>(src, targets). (src, set_iter targets)) (edge_sets st)) < frames"
    using assms by simp
  from find_circular_dependencies_returns[OF this]
  show ?thesis by (auto simp: assemble_def Let_def)
qed

lemma set_fold_set_add: "set (fold set_add xs acc) = set xs \<union> set acc"
  by (induction xs arbitrary: acc) (auto simp: set_set_add)

lemma set_all_targets:
  assumes "iteration_order set_iter"
  shows "set (all_targets set_iter st) = (\<Union>(k, ts) \<in> set (edge_sets st). set ts)"
proof -
  have "set (fold (\<lambda>t_set acc. fold set_add (set_iter t_set) acc) tss acc)
          = (\<Union>ts \<in> set tss. set ts) \<union> set acc" for tss acc
    by (induction tss arbitrary: acc)
       (auto simp: set_fold_set_add iteration_order_set[OF assms])
  then show ?thesis
    by (auto simp: all_targets_def)
qed

lemma set_build_graph_edges:
  assumes "iteration_order set_iter"
  shows "set (build_graph_edges set_iter st) =
           {\<lparr>edge_source = k, edge_target = t, weight = 1\<rparr> | k ts t. (k, ts) \<in> set (edge_sets st) \<and> t \<in> set ts}"
  by (auto simp: build_graph_edges_def iteration_order_set[OF assms])

lemma set_build_graph_nodes:
  assumes "iteration_order set_iter"
  shows "node_id ` set (build_graph_nodes set_iter st) = set (all_nodes st) \<union> set (external_nodes st)"
  by (auto simp: build_graph_nodes_def iteration_order_set[OF assms] image_Un image_image)

section \<open>Entry points and edge endpoints\<close>

lemma find_entry_points_sound:
  assumes ord: "iteration_order set_iter" and inv: "edges_within_nodes st"
    and ep: "ep \<in> set (find_entry_points set_iter st)"
  shows "\<lparr>node_id = ep, node_type = ''internal'', node_path = ep\<rparr> \<in> set (build_graph_nodes set_iter st)"
    and "\<exists>e \<in> set (build_graph_edges set_iter st). edge_source e = ep"
    and "\<forall>e \<in> set (build_graph_edges set_iter st). edge_target e \<noteq> ep"
proof -
  from ep have node: "ep \<in> set (all_nodes st)"
    and no_target: "ep \<notin> set (all_targets set_iter st)"
    and key: "ep \<in> fst ` set (edge_sets st)"
    by (auto simp: find_entry_points_def iteration_order_set[OF ord])
  from node show "\<lparr>node_id = ep, node_type = ''internal'', node_path = ep\<rparr>
      \<in> set (build_graph_nodes set_iter st)"
    by (simp add: build_graph_nodes_def iteration_order_set[OF ord])
  from key obtain ts where entry: "(ep, ts) \<in> set (edge_sets st)" by auto
  with inv have "ts \<noteq> []" by (auto simp: edges_within_nodes_def)
  then obtain t where "t \<in> set ts" by (cases ts) auto
  with entry have "\<lparr>edge_source = ep, edge_target = t, weight = 1\<rparr> \<in> set (build_graph_edges set_iter st)"
    unfolding set_build_graph_edges[OF ord] by blast
  then show "\<exists>e \<in> set (build_graph_edges set_iter st). edge_source e = ep"
    by force
  from no_target show "\<forall>e \<in> set (build_graph_edges set_iter st). edge_target e \<noteq> ep"
    unfolding set_build_graph_edges[OF ord] set_all_targets[OF ord] by auto
qed

text \<open>
  C6. A report has at most 20 entry points, and each of them is an internal node of the
  scanned graph, is the source of at least one of its edges and is the target of none
  of them, nor of any edge of the returned graph. The scanned graph is the one the
  report's graph is cut from: \<open>build_graph_nodes\<close> and \<open>build_graph_edges\<close> of the
  state the scan ends in.
\<close>

theorem entry_points_are_pure_sources:
  assumes "iteration_order set_iter" and "map_dependencies set_iter env inputs = Inr out"
  shows "length (entry_points out) \<le> 20
     \<and> (\<forall>ep \<in> set (entry_points out).
          \<exists>st. scan_files env inputs
                 (get_source_files env (source_path inputs) (language inputs)) scan_init = Inr st
             \<and> \<lparr>node_id = ep, node_type = ''internal'', node_path = ep\<rparr>
                 \<in> set (build_graph_nodes set_iter st)
             \<and> (\<exists>e \<in> set (build_graph_edges set_iter st). edge_source e = ep)
             \<and> (\<forall>e \<in> set (build_graph_edges set_iter st). edge_target e \<noteq> ep)
             \<and> (\<forall>e \<in> set (edges (dependency_graph out)). edge_target e \<noteq> ep))"
  using assms(2)
proof (cases rule: map_dependencies_cases)
  case absent
  then show ?thesis by (simp add: MapOutputs_default_def)
next
  case empty
  then show ?thesis by (simp add: MapOutputs_default_def)
next
  case (scanned st)
  have inv: "edges_within_nodes st"
    using scan_files_within[OF scan_init_within scanned(1)] .
  note fields = assemble_fields[OF scanned(2)]
  have "length (entry_points out) \<le> 20"
    by (simp add: fields(6))
  moreover have "\<exists>st. scan_files env inputs
                 (get_source_files env (source_path inputs) (language inputs)) scan_init = Inr st
             \<and> \<lparr>node_id = ep, node_type = ''internal'', node_path = ep\<rparr>
                 \<in> set (build_graph_nodes set_iter st)
             \<and> (\<exists>e \<in> set (build_graph_edges set_iter st). edge_source e = ep)
             \<and> (\<forall>e \<in> set (build_graph_edges set_iter st). edge_target e \<noteq> ep)
             \<and> (\<forall>e \<in> set (edges (dependency_graph out)). edge_target e \<noteq> ep)"
    if "ep \<in> set (entry_points out)" for ep
  proof -
    from that have ep: "ep \<in> set (find_entry_points set_iter st)"
      unfolding fields(6) by (rule in_set_takeD)
    note sound = find_entry_points_sound[OF assms(1) inv ep]
    from sound(3) have "\<forall>e \<in> set (edges (dependency_graph out)). edge_target e \<noteq> ep"
      unfolding fields(5) by (meson in_set_takeD)
    with scanned(1) sound show ?thesis by blast
  qed
  ultimately show ?thesis by blast
qed

theorem entry_points_are_pure_sources_witness:
  "iteration_order (\<lambda>xs. xs)
   \<and> (\<exists>out. map_dependencies (\<lambda>xs. xs) relative_js_environment scan_proj = Inr out
        \<and> entry_points out = [''a.js'', ''b.js'']
        \<and> length (entry_points out) \<le> 20
        \<and> (\<exists>st. scan_files relative_js_environment scan_proj
                   (get_source_files relative_js_environment (source_path scan_proj)
                      (language scan_proj)) scan_init = Inr st
             \<and> \<lparr>node_id = ''a.js'', node_type = ''internal'', node_path = ''a.js''\<rparr>
                 \<in> set (build_graph_nodes (\<lambda>xs. xs) st)
             \<and> (\<exists>e \<in> set (build_graph_edges (\<lambda>xs. xs) st). edge_source e = ''a.js'')
             \<and> (\<forall>e \<in> set (build_graph_edges (\<lambda>xs. xs) st). edge_target e \<noteq> ''a.js'')
             \<and> (\<forall>e \<in> set (edges (dependency_graph out)). edge_target e \<noteq> ''a.js'')))"
proof -
  obtain out where run: "map_dependencies (\<lambda>xs. xs) relative_js_environment scan_proj = Inr out"
    and eps: "entry_points out = [''a.js'', ''b.js'']"
    using relative_js_scan_output by simp
  from entry_points_are_pure_sources[OF iteration_order_id run] eps
  show ?thesis
    using iteration_order_id run by auto
qed

text \<open>
  C7 (as the code has it). The source and the target of every edge of a returned graph
  are node ids of the scanned node list; the returned node list is the first 200
  entries of that list, so when the scan has at most 200 nodes every returned edge has
  both endpoints in the returned node list.
\<close>

theorem edge_endpoints_among_scanned_nodes:
  assumes "iteration_order set_iter" and "map_dependencies set_iter env inputs = Inr out"
    and "e \<in> set (edges (dependency_graph out))"
  shows "\<exists>st. scan_files env inputs
                 (get_source_files env (source_path inputs) (language inputs)) scan_init = Inr st
           \<and> nodes (dependency_graph out) = take 200 (build_graph_nodes set_iter st)
           \<and> edge_source e \<in> node_id ` set (build_graph_nodes set_iter st)
           \<and> edge_target e \<in> node_id ` set (build_graph_nodes set_iter st)
           \<and> (length (build_graph_nodes set_iter st) \<le> 200 \<longrightarrow>
                edge_source e \<in> node_id ` set (nodes (dependency_graph out))
                \<and> edge_target e \<in> node_id ` set (nodes (dependency_graph out)))"
  using assms(2)
proof (cases rule: map_dependencies_cases)
  case absent
  with assms(3) show ?thesis by (simp add: MapOutputs_default_def)
next
  case empty
  with assms(3) show ?thesis by (simp add: MapOutputs_default_def)
next
  case (scanned st)
  have inv: "edges_within_nodes st"
    using scan_files_within[OF scan_init_within scanned(1)] .
  note fields = assemble_fields[OF scanned(2)]
  from assms(3) have "e \<in> set (build_graph_edges set_iter st)"
    unfolding fields(5) by (rule in_set_takeD)
  then obtain k ts t where e: "e = \<lparr>edge_source = k, edge_target = t, weight = 1\<rparr>"
    and entry: "(k, ts) \<in> set (edge_sets st)" and t: "t \<in> set ts"
    unfolding set_build_graph_edges[OF assms(1)] by blast
  from inv entry t have "k \<in> set (all_nodes st)" "t \<in> set (all_nodes st)"
    by (auto simp: edges_within_nodes_def)
  then have ends: "edge_source e \<in> node_id ` set (build_graph_nodes set_iter st)"
    "edge_target e \<in> node_id ` set (build_graph_nodes set_iter st)"
    unfolding set_build_graph_nodes[OF assms(1)] by (simp_all add: e)
  with scanned(1) fields(4) show ?thesis by auto
qed

theorem edge_endpoints_among_scanned_nodes_witness:
  "iteration_order (\<lambda>xs. xs)
   \<and> (\<exists>out st. map_dependencies (\<lambda>xs. xs) stdlib_named_environment scan_proj = Inr out
        \<and> \<lparr>edge_source = ''os.py'', edge_target = ''json.py'', weight = 1\<rparr>
              \<in> set (edges (dependency_graph out))
        \<and> scan_files stdlib_named_environment scan_proj
              (get_source_files stdlib_named_environment (source_path scan_proj)
                 (language scan_proj)) scan_init = Inr st
        \<and> nodes (dependency_graph out) = take 200 (build_graph_nodes (\<lambda>xs. xs) st)
        \<and> length (build_graph_nodes (\<lambda>xs. xs) st) \<le> 200
        \<and> ''os.py'' \<in> node_id ` set (nodes (dependency_graph out))
        \<and> ''json.py'' \<in> node_id ` set (nodes (dependency_graph out)))"
proof -
  obtain out where run: "map_dependencies (\<lambda>xs. xs) stdlib_named_environment scan_proj = Inr out"
    and edge: "\<lparr>edge_source = ''os.py'', edge_target = ''json.py'', weight = 1\<rparr>
                 \<in> set (edges (dependency_graph out))"
    and two: "length (nodes (dependency_graph out)) = 2"
    using stdlib_named_scan_output by simp
  from edge_endpoints_among_scanned_nodes[OF iteration_order_id run edge]
  obtain st where st: "scan_files stdlib_named_environment scan_proj
              (get_source_files stdlib_named_environment (source_path scan_proj)
                 (language scan_proj)) scan_init = Inr st"
    and cut: "nodes (dependency_graph out) = take 200 (build_graph_nodes (\<lambda>xs. xs) st)"
    and small: "length (build_graph_nodes (\<lambda>xs. xs) st) \<le> 200 \<longrightarrow>
                ''os.py'' \<in> node_id ` set (nodes (dependency_graph out))
                \<and> ''json.py'' \<in> node_id ` set (nodes (dependency_graph out))"
    by auto
  from cut two have "length (build_graph_nodes (\<lambda>xs. xs) st) \<le> 200"
    by (simp add: min_def split: if_splits)
  with run edge st cut small iteration_order_id show ?thesis by blast
qed

section \<open>A file with many internal imports\<close>

lemma many_modules_Suc:
  "many_modules (Suc n) = many_modules n @ [''./'' @ replicate (Suc n) (CHR ''m'')]"
  by (simp add: many_modules_def)

lemma many_modules_0: "many_modules 0 = []"
  by (simp add: many_modules_def)

lemma length_many_modules: "length (many_modules n) = n"
  by (simp add: many_modules_def)

lemma many_modules_fresh: "''./'' @ replicate (Suc n) (CHR ''m'') \<notin> set (many_modules n)"
proof
  assume "''./'' @ replicate (Suc n) (CHR ''m'') \<in> set (many_modules n)"
  then obtain i where "i < n" "''./'' @ replicate (Suc n) (CHR ''m'') = ''./'' @ replicate (Suc i) (CHR ''m'')"
    by (auto simp: many_modules_def)
  then have "length (replicate (Suc n) (CHR ''m'')) = length (replicate (Suc i) (CHR ''m''))"
    by (metis same_append_eq)
  with \<open>i < n\<close> show False by simp
qed

lemma take_many_modules: "k \<le> n \<Longrightarrow> take k (many_modules n) = many_modules k"
  by (simp add: many_modules_def take_map min_def)

lemma fold_many_imports:
  "fold (scan_import incl fp ''javascript'' ''a.js'')
        (map (\<lambda>m. (m, ''default'', [''x''])) (many_modules n))
        (scan_init\<lparr>all_nodes := [''a.js'']\<rparr>)
   = \<lparr>internal_deps = many_deps n, external_deps_map = [],
      edge_sets = (if n = 0 then [] else [(''a.js'', many_modules n)]),
      all_nodes = ''a.js'' # many_modules n, external_nodes = []\<rparr>"
proof (induction n)
  case 0
  then show ?case by (simp add: many_modules_def many_deps_def scan_init_def)
next
  case (Suc n)
  let ?m = "''./'' @ replicate (Suc n) (CHR ''m'')"
  have internal: "\<not> is_external_dependency ?m ''javascript'' fp"
    by (simp add: is_external_dependency_def startswith_def)
  have fresh: "?m \<notin> set (many_modules n)" by (rule many_modules_fresh)
  have deps: "many_deps (Suc n) = many_deps n @
      [\<lparr>dep_source = ''a.js'', dep_target = ?m, import_type = ''default'', symbols = [''x'']\<rparr>]"
    by (simp add: many_deps_def many_modules_Suc)
  let ?F = "scan_import incl fp ''javascript'' ''a.js''"
  let ?S = "\<lparr>internal_deps = many_deps n, external_deps_map = [],
      edge_sets = (if n = 0 then [] else [(''a.js'', many_modules n)]),
      all_nodes = ''a.js'' # many_modules n, external_nodes = []\<rparr>"
  have "fold ?F (map (\<lambda>m. (m, ''default'', [''x''])) (many_modules (Suc n)))
          (scan_init\<lparr>all_nodes := [''a.js'']\<rparr>)
        = ?F (?m, ''default'', [''x''])
            (fold ?F (map (\<lambda>m. (m, ''default'', [''x''])) (many_modules n))
               (scan_init\<lparr>all_nodes := [''a.js'']\<rparr>))"
    by (simp only: many_modules_Suc map_append fold_append list.map fold_simps comp_def)
  also have "\<dots> = ?F (?m, ''default'', [''x'']) ?S"
    by (simp only: Suc.IH)
  also have "\<dots> = \<lparr>internal_deps = many_deps (Suc n), external_deps_map = [],
      edge_sets = [(''a.js'', many_modules (Suc n))],
      all_nodes = ''a.js'' # many_modules (Suc n), external_nodes = []\<rparr>"
    using fresh internal many_modules_0
    by (simp add: scan_import_def add_edge_def deps set_add_def dict_default_def
          many_modules_Suc[of n] del: replicate.simps)
  finally show ?case by simp
qed

lemma many_imports_scan:
  "scan_files (many_imports_environment n) scan_proj
     (get_source_files (many_imports_environment n) (source_path scan_proj) (language scan_proj))
     scan_init
   = Inr \<lparr>internal_deps = many_deps n, external_deps_map = [],
          edge_sets = (if n = 0 then [] else [(''a.js'', many_modules n)]),
          all_nodes = ''a.js'' # many_modules n, external_nodes = []\<rparr>"
proof -
  have files: "get_source_files (many_imports_environment n) (source_path scan_proj) (language scan_proj)
      = [''proj/a.js'']"
    by (simp add: get_source_files_def many_imports_environment_def bare_environment_def
          scan_proj_def EXTENSION_TO_LANGUAGE_def)
  have lang: "file_language (many_imports_environment n) scan_proj ''proj/a.js'' = ''javascript''"
    by (simp add: file_language_def detect_language_def many_imports_environment_def
          bare_environment_def scan_proj_def EXTENSION_TO_LANGUAGE_def lower_def lower_char_def)
  have parsed: "parse_file_imports (many_imports_environment n) ''proj/a.js'' ''javascript''
      = Inr (map (\<lambda>m. (m, ''default'', [''x''])) (many_modules n))"
    by (simp add: parse_file_imports_def parse_js_imports_def many_imports_environment_def
          bare_environment_def comp_def)
  have rel: "relative_path_of (many_imports_environment n) scan_proj ''proj/a.js'' = Inr ''a.js''"
    by (simp add: relative_path_of_def many_imports_environment_def bare_environment_def
          scan_proj_def startswith_def)
  have add: "scan_init\<lparr>all_nodes := set_add ''a.js'' (all_nodes scan_init)\<rparr>
      = scan_init\<lparr>all_nodes := [''a.js'']\<rparr>"
    by (simp add: scan_init_def set_add_def)
  show ?thesis
    unfolding files
    by (simp add: scan_file_def lang parsed rel add fold_many_imports)
qed

lemma distinct_many_modules: "distinct (many_modules n)"
proof -
  have "inj_on (\<lambda>i. ''./'' @ replicate (Suc i) (CHR ''m'')) (set [0..<n])"
  proof (rule inj_onI)
    fix i j
    assume "''./'' @ replicate (Suc i) (CHR ''m'') = ''./'' @ replicate (Suc j) (CHR ''m'')"
    then have "length (replicate (Suc i) (CHR ''m'')) = length (replicate (Suc j) (CHR ''m''))"
      by (metis same_append_eq)
    then show "i = j" by simp
  qed
  then show ?thesis
    by (simp add: many_modules_def distinct_map)
qed

lemma a_js_not_module: "''a.js'' \<notin> set (many_modules n)"
  by (auto simp: many_modules_def)

lemma many_imports_report_any_order:
  "\<exists>out. map_dependencies set_iter (many_imports_environment (Suc n)) scan_proj = Inr out
     \<and> total_dependencies out = Suc n
     \<and> internal_dependencies out = take 100 (many_deps (Suc n))
     \<and> external_dependencies out = []
     \<and> nodes (dependency_graph out)
         = take 200 (map (\<lambda>p. \<lparr>node_id = p, node_type = ''internal'', node_path = p\<rparr>)
                       (set_iter (''a.js'' # many_modules (Suc n)))
                     @ map (\<lambda>p. \<lparr>node_id = p, node_type = ''external'', node_path = p\<rparr>)
                       (set_iter []))
     \<and> edges (dependency_graph out)
         = take 500 (map (\<lambda>t. \<lparr>edge_source = ''a.js'', edge_target = t, weight = 1\<rparr>)
                       (set_iter (many_modules (Suc n))))"
proof -
  let ?env = "many_imports_environment (Suc n)"
  let ?st = "\<lparr>internal_deps = many_deps (Suc n), external_deps_map = [],
          edge_sets = [(''a.js'', many_modules (Suc n))],
          all_nodes = ''a.js'' # many_modules (Suc n), external_nodes = []\<rparr>"
  have exists: "path_exists ?env (source_path scan_proj) = Inr True"
    by (simp add: many_imports_environment_def scan_proj_def)
  have frames: "frames_left ?env = 900"
    by (simp add: many_imports_environment_def bare_environment_def)
  have files: "get_source_files ?env (source_path scan_proj) (language scan_proj) = [''proj/a.js'']"
    by (simp add: get_source_files_def many_imports_environment_def bare_environment_def
          scan_proj_def EXTENSION_TO_LANGUAGE_def)
  have scan: "scan_files ?env scan_proj [''proj/a.js''] scan_init = Inr ?st"
    using many_imports_scan[of "Suc n"] unfolding files by simp
  obtain out where out: "assemble set_iter 900 1 ?st = Inr out"
    using assemble_returns[of ?st 900 set_iter 1] by auto
  have run: "map_dependencies set_iter ?env scan_proj = Inr out"
    using exists files scan out frames by (simp add: map_dependencies_def)
  note fields = assemble_fields[OF out]
  from fields(1) have "total_dependencies out = Suc n"
    by (simp add: many_deps_def length_many_modules)
  moreover from fields(2) have "internal_dependencies out = take 100 (many_deps (Suc n))"
    by simp
  moreover from fields(3) have "external_dependencies out = []"
    by (simp add: build_external_deps_def)
  moreover from fields(4) have "nodes (dependency_graph out)
         = take 200 (map (\<lambda>p. \<lparr>node_id = p, node_type = ''internal'', node_path = p\<rparr>)
                       (set_iter (''a.js'' # many_modules (Suc n)))
                     @ map (\<lambda>p. \<lparr>node_id = p, node_type = ''external'', node_path = p\<rparr>)
                       (set_iter []))"
    by (simp add: build_graph_nodes_def)
  moreover from fields(5) have "edges (dependency_graph out)
         = take 500 (map (\<lambda>t. \<lparr>edge_source = ''a.js'', edge_target = t, weight = 1\<rparr>)
                       (set_iter (many_modules (Suc n))))"
    by (simp add: build_graph_edges_def)
  ultimately show ?thesis using run by blast
qed

text \<open>
  The claim C7 as stated fails on a file with 200 internal imports of different
  targets: the scan has 201 internal nodes, each an endpoint of one of the 200
  returned edges, and the returned node list keeps 200 of them. In insertion order the
  node cut is the last target.
\<close>

theorem returned_edge_endpoint_cut_counterexample:
  "\<exists>out. map_dependencies (\<lambda>xs. xs) (many_imports_environment 200) scan_proj = Inr out
     \<and> \<lparr>edge_source = ''a.js'', edge_target = ''./'' @ replicate 200 (CHR ''m''), weight = 1\<rparr>
           \<in> set (edges (dependency_graph out))
     \<and> ''./'' @ replicate 200 (CHR ''m'') \<notin> node_id ` set (nodes (dependency_graph out))"
proof -
  define target where "target = ''./'' @ replicate 200 (CHR ''m'')"
  have split: "many_modules 200 = many_modules 199 @ [target]"
    using many_modules_Suc[of 199] by (simp add: target_def)
  have fresh: "target \<notin> set (many_modules 199)"
    using many_modules_fresh[of 199] by (simp add: target_def)
  have other: "target \<noteq> ''a.js''"
    by (simp add: target_def)
  obtain out where run: "map_dependencies (\<lambda>xs. xs) (many_imports_environment 200) scan_proj = Inr out"
    and ns: "nodes (dependency_graph out)
         = take 200 (map (\<lambda>p. \<lparr>node_id = p, node_type = ''internal'', node_path = p\<rparr>)
                       (''a.js'' # many_modules 200))"
    and es: "edges (dependency_graph out)
         = take 500 (map (\<lambda>t. \<lparr>edge_source = ''a.js'', edge_target = t, weight = 1\<rparr>)
                       (many_modules 200))"
    using many_imports_report_any_order[of "\<lambda>xs. xs" 199] by auto
  have "edges (dependency_graph out)
      = map (\<lambda>t. \<lparr>edge_source = ''a.js'', edge_target = t, weight = 1\<rparr>) (many_modules 200)"
    unfolding es by (simp add: length_many_modules)
  then have edge: "\<lparr>edge_source = ''a.js'', edge_target = target, weight = 1\<rparr>
      \<in> set (edges (dependency_graph out))"
    by (simp add: split)
  have "take 200 (''a.js'' # many_modules 200) = ''a.js'' # many_modules 199"
    by (simp add: split length_many_modules)
  then have "node_id ` set (nodes (dependency_graph out)) = insert ''a.js'' (set (many_modules 199))"
    unfolding ns take_map by (simp add: image_image)
  with fresh other have "target \<notin> node_id ` set (nodes (dependency_graph out))"
    by blast
  with run edge show ?thesis
    unfolding target_def by blast
qed

text \<open>
  In any other iteration order a node is cut all the same, and it is an endpoint of a
  returned edge.
\<close>

lemma iteration_order_Nil: "iteration_order set_iter \<Longrightarrow> set_iter [] = []"
  by (metis iteration_order_def mset_zero_iff mset.simps(1))

lemma iteration_order_distinct:
  "iteration_order set_iter \<Longrightarrow> distinct xs \<Longrightarrow> distinct (set_iter xs)"
  by (metis iteration_order_def mset_eq_imp_distinct_iff)

lemma returned_edge_endpoint_cut_any_order:
  assumes ord: "iteration_order set_iter"
  shows "\<exists>out e. map_dependencies set_iter (many_imports_environment 200) scan_proj = Inr out
     \<and> e \<in> set (edges (dependency_graph out))
     \<and> (edge_source e \<notin> node_id ` set (nodes (dependency_graph out))
        \<or> edge_target e \<notin> node_id ` set (nodes (dependency_graph out)))"
proof -
  define xs where "xs = set_iter (''a.js'' # many_modules 200)"
  define ys where "ys = set_iter (many_modules 200)"
  obtain out where run: "map_dependencies set_iter (many_imports_environment 200) scan_proj = Inr out"
    and ns: "nodes (dependency_graph out)
         = take 200 (map (\<lambda>p. \<lparr>node_id = p, node_type = ''internal'', node_path = p\<rparr>) xs
                     @ map (\<lambda>p. \<lparr>node_id = p, node_type = ''external'', node_path = p\<rparr>)
                       (set_iter []))"
    and es: "edges (dependency_graph out)
         = take 500 (map (\<lambda>t. \<lparr>edge_source = ''a.js'', edge_target = t, weight = 1\<rparr>) ys)"
    using many_imports_report_any_order[of set_iter 199] by (auto simp: xs_def ys_def)
  have len_xs: "length xs = 201"
    by (simp add: xs_def iteration_order_length[OF ord] length_many_modules)
  have dist_xs: "distinct xs"
    unfolding xs_def
    by (rule iteration_order_distinct[OF ord]) (simp add: distinct_many_modules a_js_not_module)
  have set_xs: "set xs = insert ''a.js'' (set (many_modules 200))"
    by (simp add: xs_def iteration_order_set[OF ord])
  have set_ys: "set ys = set (many_modules 200)"
    by (simp add: ys_def iteration_order_set[OF ord])
  have len_ys: "length ys = 200"
    by (simp add: ys_def iteration_order_length[OF ord] length_many_modules)
  have ids: "node_id ` set (nodes (dependency_graph out)) = set (take 200 xs)"
    unfolding ns by (simp add: len_xs take_map image_image)
  have all_edges: "set (edges (dependency_graph out))
      = (\<lambda>t. \<lparr>edge_source = ''a.js'', edge_target = t, weight = 1\<rparr>) ` set (many_modules 200)"
    unfolding es by (simp add: len_ys set_ys)
  define x where "x = xs ! 200"
  have x_in: "x \<in> set (drop 200 xs)"
    unfolding x_def using len_xs by (simp add: in_set_conv_nth)
  have "set (take 200 xs) \<inter> set (drop 200 xs) = {}"
    using dist_xs by (simp add: set_take_disj_set_drop_if_distinct)
  with x_in have cut: "x \<notin> node_id ` set (nodes (dependency_graph out))"
    unfolding ids by blast
  from x_in have "x \<in> set xs" by (rule in_set_dropD)
  then consider "x = ''a.js''" | "x \<in> set (many_modules 200)"
    unfolding set_xs by blast
  then show ?thesis
  proof cases
    case 1
    have "many_modules 200 \<noteq> []"
      using length_many_modules[of 200] by auto
    then obtain t where "t \<in> set (many_modules 200)"
      by (cases "many_modules 200") auto
    then have "\<lparr>edge_source = ''a.js'', edge_target = t, weight = 1\<rparr>
        \<in> set (edges (dependency_graph out))"
      unfolding all_edges by blast
    with run cut 1 show ?thesis by force
  next
    case 2
    then have "\<lparr>edge_source = ''a.js'', edge_target = x, weight = 1\<rparr>
        \<in> set (edges (dependency_graph out))"
      unfolding all_edges by blast
    with run cut show ?thesis by force
  qed
qed

text \<open>
  The claim C2 as stated fails on the same file: 200 internal dependency records are
  counted, 100 are returned.
\<close>

theorem total_exceeds_returned_lists_counterexample:
  "\<exists>out. map_dependencies (\<lambda>xs. xs) (many_imports_environment 200) scan_proj = Inr out
     \<and> include_external scan_proj
     \<and> total_dependencies out = 200
     \<and> length (internal_dependencies out) = 100
     \<and> length (external_dependencies out) = 0
     \<and> total_dependencies out
         \<noteq> length (internal_dependencies out) + length (external_dependencies out)"
proof -
  obtain out where run: "map_dependencies (\<lambda>xs. xs) (many_imports_environment 200) scan_proj = Inr out"
    and "total_dependencies out = 200"
    and "internal_dependencies out = take 100 (many_deps 200)"
    and "external_dependencies out = []"
    using many_imports_report_any_order[of "\<lambda>xs. xs" 199] by auto
  then show ?thesis
    by (intro exI[of _ out]) (simp add: many_deps_def length_many_modules scan_proj_def)
qed

lemma total_exceeds_returned_lists_any_order:
  "\<exists>out. map_dependencies set_iter (many_imports_environment 200) scan_proj = Inr out
     \<and> total_dependencies out = 200
     \<and> length (internal_dependencies out) = 100
     \<and> length (external_dependencies out) = 0"
proof -
  obtain out where "map_dependencies set_iter (many_imports_environment 200) scan_proj = Inr out"
    and "total_dependencies out = 200"
    and "internal_dependencies out = take 100 (many_deps 200)"
    and "external_dependencies out = []"
    using many_imports_report_any_order[of set_iter 199] by auto
  then show ?thesis
    by (intro exI[of _ out]) (simp add: many_deps_def length_many_modules)
qed

section \<open>The total and the returned lists\<close>

lemma scan_import_no_external:
  "external_deps_map st = [] \<Longrightarrow> external_deps_map (scan_import False fp lang rel imp st) = []"
  by (cases imp) (simp add: scan_import_def)

lemma fold_scan_import_no_external:
  "external_deps_map st = [] \<Longrightarrow>
     external_deps_map (fold (scan_import False fp lang rel) imps st) = []"
  by (induction imps arbitrary: st) (simp_all add: scan_import_no_external)

lemma scan_file_no_external:
  "\<not> include_external inputs \<Longrightarrow> external_deps_map st = [] \<Longrightarrow>
     scan_file env inputs fp st = Inr st' \<Longrightarrow> external_deps_map st' = []"
  by (auto simp: scan_file_def Let_def fold_scan_import_no_external split: sum.splits)

lemma scan_files_no_external:
  "\<not> include_external inputs \<Longrightarrow> external_deps_map st = [] \<Longrightarrow>
     scan_files env inputs files st = Inr st' \<Longrightarrow> external_deps_map st' = []"
proof (induction files arbitrary: st)
  case Nil
  then show ?case by simp
next
  case (Cons fp files)
  then show ?case
    by (auto split: sum.splits dest: scan_file_no_external)
qed

lemma distinct_keys_dict_set:
  "distinct (map fst d) \<Longrightarrow> distinct (map fst (dict_set k v d))"
proof (induction d)
  case Nil
  then show ?case by simp
next
  case (Cons entry d)
  have "fst ` set (dict_set k v d) \<subseteq> insert k (fst ` set d)"
    using dict_set_cases[of _ _ k v d] by force
  with Cons show ?case by (cases entry) auto
qed

lemma scan_import_distinct_external:
  "distinct (map fst (external_deps_map st)) \<Longrightarrow>
     distinct (map fst (external_deps_map (scan_import incl fp lang rel imp st)))"
  by (cases imp) (simp add: scan_import_def Let_def distinct_keys_dict_set)

lemma fold_scan_import_distinct_external:
  "distinct (map fst (external_deps_map st)) \<Longrightarrow>
     distinct (map fst (external_deps_map (fold (scan_import incl fp lang rel) imps st)))"
  by (induction imps arbitrary: st) (simp_all add: scan_import_distinct_external)

lemma scan_file_distinct_external:
  "distinct (map fst (external_deps_map st)) \<Longrightarrow> scan_file env inputs fp st = Inr st' \<Longrightarrow>
     distinct (map fst (external_deps_map st'))"
  by (auto simp: scan_file_def Let_def fold_scan_import_distinct_external split: sum.splits)

lemma scan_files_distinct_external:
  "distinct (map fst (external_deps_map st)) \<Longrightarrow> scan_files env inputs files st = Inr st' \<Longrightarrow>
     distinct (map fst (external_deps_map st'))"
proof (induction files arbitrary: st)
  case Nil
  then show ?case by simp
next
  case (Cons fp files)
  then show ?case
    by (auto split: sum.splits dest: scan_file_distinct_external)
qed

text \<open>
  C2 (as the code has it). When the path does not exist the total is zero and both
  lists are empty. Otherwise, with \<open>st\<close> the state in which the scan of the source
  files ends, \<open>total_dependencies\<close> is the number of internal dependency records of
  \<open>st\<close> plus the number of entries of its external map, one for each different
  external root module; the returned internal list is the first 100 of those records
  and the returned external list the first 50 of the external dependencies, which are
  as many as the entries of the map. So the total equals the sum of the two returned
  lengths whenever neither count exceeds its cap. When \<open>include_external\<close> is false
  the external map is empty.
\<close>

theorem total_dependencies_counts_before_caps:
  assumes "map_dependencies set_iter env inputs = Inr out"
  shows "(path_exists env (source_path inputs) = Inr False
          \<and> total_dependencies out = 0
          \<and> internal_dependencies out = [] \<and> external_dependencies out = [])
       \<or> (\<exists>st. path_exists env (source_path inputs) = Inr True
            \<and> scan_files env inputs
                 (get_source_files env (source_path inputs) (language inputs)) scan_init = Inr st
            \<and> total_dependencies out = length (internal_deps st) + length (external_deps_map st)
            \<and> internal_dependencies out = take 100 (internal_deps st)
            \<and> external_dependencies out = take 50 (build_external_deps set_iter st)
            \<and> length (build_external_deps set_iter st) = length (external_deps_map st)
            \<and> distinct (map fst (external_deps_map st))
            \<and> (\<not> include_external inputs \<longrightarrow> external_deps_map st = [])
            \<and> (length (internal_deps st) \<le> 100 \<and> length (external_deps_map st) \<le> 50 \<longrightarrow>
                 total_dependencies out
                   = length (internal_dependencies out) + length (external_dependencies out)))"
  using assms
proof (cases rule: map_dependencies_cases)
  case absent
  then show ?thesis by (simp add: MapOutputs_default_def)
next
  case empty
  have "scan_files env inputs
          (get_source_files env (source_path inputs) (language inputs)) scan_init = Inr scan_init"
    by (simp add: empty(3))
  moreover have "external_deps_map scan_init = []" "internal_deps scan_init = []"
    by (simp_all add: scan_init_def)
  ultimately show ?thesis
    using empty(1,2)
    by (intro disjI2 exI[of _ scan_init]) (simp add: MapOutputs_default_def build_external_deps_def)
next
  case (scanned st)
  note fields = assemble_fields[OF scanned(2)]
  have none: "external_deps_map st = []" if "\<not> include_external inputs"
    using scan_files_no_external[OF that _ scanned(1)] by (simp add: scan_init_def)
  have keys: "distinct (map fst (external_deps_map st))"
    using scan_files_distinct_external[OF _ scanned(1)] by (simp add: scan_init_def)
  have ext: "length (build_external_deps set_iter st) = length (external_deps_map st)"
    by (simp add: build_external_deps_def)
  show ?thesis
    using fields(1,2,3) ext none keys scanned(1,3)
    by (intro disjI2 exI[of _ st]) (auto simp: min_def)
qed

lemma single_python_scan_output:
  "map_dependencies (\<lambda>xs. xs) single_python_environment scan_test_py =
     Inr \<lparr>summary = ''Analyzed 1 file(s). Found 2 internal and 1 external dependencies. Most depended: os (1 dependents).'',
          total_dependencies = 3,
          internal_dependencies =
            [\<lparr>dep_source = ''test.py'', dep_target = ''os'',
               import_type = ''direct'', symbols = [''os'']\<rparr>,
             \<lparr>dep_source = ''test.py'', dep_target = ''json'',
               import_type = ''direct'', symbols = [''json'']\<rparr>],
          external_dependencies =
            [\<lparr>name = ''fastapi'', used_in = [''test.py''], import_count = 1\<rparr>],
          dependency_graph =
            \<lparr>nodes = [\<lparr>node_id = ''test.py'', node_type = ''internal'', node_path = ''test.py''\<rparr>,
                      \<lparr>node_id = ''os'', node_type = ''internal'', node_path = ''os''\<rparr>,
                      \<lparr>node_id = ''json'', node_type = ''internal'', node_path = ''json''\<rparr>,
                      \<lparr>node_id = ''fastapi'', node_type = ''external'', node_path = ''fastapi''\<rparr>],
             edges = [\<lparr>edge_source = ''test.py'', edge_target = ''os'', weight = 1\<rparr>,
                      \<lparr>edge_source = ''test.py'', edge_target = ''json'', weight = 1\<rparr>]\<rparr>,
          circular_dependencies = [],
          entry_points = [''test.py''],
          highly_depended = [\<lparr>hd_path = ''os'', dependents_count = 1\<rparr>,
                             \<lparr>hd_path = ''json'', dependents_count = 1\<rparr>]\<rparr>"
  by code_simp

theorem total_dependencies_counts_before_caps_witness:
  "\<exists>out st. map_dependencies (\<lambda>xs. xs) single_python_environment scan_test_py = Inr out
     \<and> path_exists single_python_environment (source_path scan_test_py) = Inr True
     \<and> scan_files single_python_environment scan_test_py
           (get_source_files single_python_environment (source_path scan_test_py)
              (language scan_test_py)) scan_init = Inr st
     \<and> total_dependencies out = 3
     \<and> length (internal_deps st) = 2
     \<and> length (external_deps_map st) = 1
     \<and> internal_dependencies out = take 100 (internal_deps st)
     \<and> external_dependencies out = take 50 (build_external_deps (\<lambda>xs. xs) st)
     \<and> total_dependencies out
           = length (internal_dependencies out) + length (external_dependencies out)"
proof -
  obtain out where run: "map_dependencies (\<lambda>xs. xs) single_python_environment scan_test_py = Inr out"
    and sizes: "total_dependencies out = 3" "length (internal_dependencies out) = 2"
      "length (external_dependencies out) = 1"
    using single_python_scan_output by simp
  have exists: "path_exists single_python_environment (source_path scan_test_py) = Inr True"
    by code_simp
  from total_dependencies_counts_before_caps[OF run] exists
  obtain st where st:
    "scan_files single_python_environment scan_test_py
       (get_source_files single_python_environment (source_path scan_test_py)
          (language scan_test_py)) scan_init = Inr st"
    "total_dependencies out = length (internal_deps st) + length (external_deps_map st)"
    "internal_dependencies out = take 100 (internal_deps st)"
    "external_dependencies out = take 50 (build_external_deps (\<lambda>xs. xs) st)"
    "length (build_external_deps (\<lambda>xs. xs) st) = length (external_deps_map st)"
    by auto
  from st(3) sizes(2) have ints: "length (internal_deps st) = 2"
    by (simp add: min_def split: if_splits)
  from st(2) sizes(1) ints have exts: "length (external_deps_map st) = 1"
    by simp
  from run exists st sizes ints exts show ?thesis
    by (intro exI[of _ out] exI[of _ st]) simp
qed

section \<open>Two files that import each other\<close>

lemma fold_scan_import_edges:
  "edge_sets (fold (scan_import incl fp lang rel) imps st)
     = fold (add_edge rel) (internal_targets fp lang imps) (edge_sets st)
   \<and> all_nodes (fold (scan_import incl fp lang rel) imps st)
     = fold set_add (internal_targets fp lang imps) (all_nodes st)"
proof (induction imps arbitrary: st)
  case Nil
  then show ?case by (simp add: internal_targets_def)
next
  case (Cons imp imps)
  obtain module imp_type syms where imp: "imp = (module, imp_type, syms)"
    by (cases imp)
  show ?case
  proof (cases "module \<noteq> [] \<and> \<not> is_external_dependency module lang fp")
    case True
    then have step: "edge_sets (scan_import incl fp lang rel imp st) = add_edge rel module (edge_sets st)"
      "all_nodes (scan_import incl fp lang rel imp st) = set_add module (all_nodes st)"
      by (simp_all add: imp scan_import_def add_edge_def)
    have "internal_targets fp lang (imp # imps) = module # internal_targets fp lang imps"
      using True by (simp add: internal_targets_def imp)
    with step Cons.IH[of "scan_import incl fp lang rel imp st"] show ?thesis by simp
  next
    case False
    then have step: "edge_sets (scan_import incl fp lang rel imp st) = edge_sets st"
      "all_nodes (scan_import incl fp lang rel imp st) = all_nodes st"
      by (auto simp: imp scan_import_def Let_def)
    have "internal_targets fp lang (imp # imps) = internal_targets fp lang imps"
      using False by (auto simp: internal_targets_def imp)
    with step Cons.IH[of "scan_import incl fp lang rel imp st"] show ?thesis by simp
  qed
qed

lemma scan_file_edges:
  assumes "parse_file_imports env fp (file_language env inputs fp) = Inr imps"
    and "relative_path_of env inputs fp = Inr rel"
  shows "\<exists>st'. scan_file env inputs fp st = Inr st'
     \<and> edge_sets st' = fold (add_edge rel) (internal_targets fp (file_language env inputs fp) imps)
                         (edge_sets st)
     \<and> all_nodes st' = fold set_add (internal_targets fp (file_language env inputs fp) imps)
                         (set_add rel (all_nodes st))"
  using assms fold_scan_import_edges
    [of "include_external inputs" fp "file_language env inputs fp" rel imps
        "st\<lparr>all_nodes := set_add rel (all_nodes st)\<rparr>"]
  by (simp add: scan_file_def)

lemma dict_set_new: "k \<notin> fst ` set d \<Longrightarrow> dict_set k v d = d @ [(k, v)]"
  by (induction d) auto

lemma dict_set_last: "k \<notin> fst ` set d \<Longrightarrow> dict_set k v (d @ [(k, v')]) = d @ [(k, v)]"
  by (induction d) auto

lemma map_of_not_key: "k \<notin> fst ` set d \<Longrightarrow> map_of d k = None"
  by (simp add: map_of_eq_None_iff)

lemma dict_default_new: "k \<notin> fst ` set d \<Longrightarrow> dict_default d k dflt = dflt"
  by (simp add: dict_default_def map_of_not_key)

lemma dict_default_last: "k \<notin> fst ` set d \<Longrightarrow> dict_default (d @ [(k, v)]) k dflt = v"
  by (simp add: dict_default_def map_add_def map_of_not_key)

lemma fold_add_edge_same:
  "rel \<notin> fst ` set d \<Longrightarrow> \<forall>x \<in> set ts. x = t \<Longrightarrow>
     fold (add_edge rel) ts (d @ [(rel, [t])]) = d @ [(rel, [t])]"
  by (induction ts)
     (simp_all add: add_edge_def dict_default_last dict_set_last set_add_def)

lemma fold_add_edge_single:
  assumes "rel \<notin> fst ` set d" "set ts = {t}"
  shows "fold (add_edge rel) ts d = d @ [(rel, [t])]"
proof -
  from assms(2) obtain ts' where ts: "ts = t # ts'" and rest: "\<forall>x \<in> set ts'. x = t"
    by (cases ts) auto
  have "add_edge rel t d = d @ [(rel, [t])]"
    using assms(1) by (simp add: add_edge_def dict_default_new dict_set_new set_add_def)
  with fold_add_edge_same[OF assms(1) rest] show ?thesis
    by (simp add: ts)
qed

lemma fold_set_add_single:
  assumes "set ts = {t}"
  shows "fold set_add ts ns = set_add t ns"
proof -
  have same: "fold set_add ts' ns' = ns'" if "\<forall>x \<in> set ts'. x = t" "t \<in> set ns'" for ts' ns'
    using that by (induction ts') (simp_all add: set_add_def)
  from assms obtain ts' where ts: "ts = t # ts'" and rest: "\<forall>x \<in> set ts'. x = t"
    by (cases ts) auto
  have "t \<in> set (set_add t ns)" by (simp add: set_add_def)
  from same[OF rest this] show ?thesis by (simp add: ts)
qed

lemma two_cycle_general:
  assumes "a \<noteq> b" "2 < frames"
  shows "find_circular_dependencies frames [(a, [b]), (b, [a])] = Inr [[a, b, a]]"
proof -
  from assms(2) obtain k where frames: "frames = Suc (Suc (Suc k))"
    by (metis Suc_lessE numeral_2_eq_2 less_imp_Suc_add add_Suc)
  show ?thesis
    using assms(1)
    by (simp add: frames find_circular_dependencies_def dfs.simps edges_get_def Let_def)
qed

lemma iteration_order_single: "iteration_order set_iter \<Longrightarrow> set_iter [x] = [x]"
  by (metis iteration_order_def mset.simps(1) mset.simps(2) mset_single_iff_right
        mset_zero_iff_right)

text \<open>
  C3 (as the code has it). An import target becomes a node under its own spelling; it
  is never resolved to a file. Take a scan of two files with node ids \<open>a\<close> and \<open>b\<close>,
  \<open>a \<noteq> b\<close>, in which the internal targets of the first file are all spelled \<open>b\<close>
  and those of the second all spelled \<open>a\<close>, at least one each. Then the report has
  exactly one cycle, \<open>[a, b, a]\<close>, both files are internal nodes of the returned
  graph, and there is no entry point. The search of this graph nests three calls, which
  the interpreter must have frames for.
\<close>

theorem mutual_imports_by_node_id_one_cycle:
  assumes ord: "iteration_order set_iter"
    and exists: "path_exists env (source_path inputs) = Inr True"
    and frames: "2 < frames_left env"
    and files: "get_source_files env (source_path inputs) (language inputs) = [file_a, file_b]"
    and rel_a: "relative_path_of env inputs file_a = Inr a"
    and rel_b: "relative_path_of env inputs file_b = Inr b"
    and distinct: "a \<noteq> b"
    and imports_a: "parse_file_imports env file_a (file_language env inputs file_a) = Inr imports_a"
    and imports_b: "parse_file_imports env file_b (file_language env inputs file_b) = Inr imports_b"
    and targets_a: "set (internal_targets file_a (file_language env inputs file_a) imports_a) = {b}"
    and targets_b: "set (internal_targets file_b (file_language env inputs file_b) imports_b) = {a}"
  shows "\<exists>out. map_dependencies set_iter env inputs = Inr out
     \<and> circular_dependencies out = [[a, b, a]]
     \<and> entry_points out = []
     \<and> \<lparr>node_id = a, node_type = ''internal'', node_path = a\<rparr> \<in> set (nodes (dependency_graph out))
     \<and> \<lparr>node_id = b, node_type = ''internal'', node_path = b\<rparr> \<in> set (nodes (dependency_graph out))"
proof -
  from scan_file_edges[OF imports_a rel_a, of scan_init]
  obtain st1 where scan1: "scan_file env inputs file_a scan_init = Inr st1"
    and edges1: "edge_sets st1 = [(a, [b])]" and nodes1: "all_nodes st1 = [a, b]"
    using distinct
    by (auto simp: targets_a fold_add_edge_single[of a "[]" _ b, simplified]
          fold_set_add_single[OF targets_a] scan_init_def set_add_def)
  from scan_file_edges[OF imports_b rel_b, of st1]
  obtain st2 where scan2: "scan_file env inputs file_b st1 = Inr st2"
    and edges2: "edge_sets st2 = [(a, [b]), (b, [a])]" and nodes2: "all_nodes st2 = [a, b]"
    using distinct
    by (auto simp: edges1 nodes1 fold_add_edge_single[of b "[(a, [b])]" _ a, simplified]
          fold_set_add_single[OF targets_b] targets_b set_add_def)
  have scan: "scan_files env inputs [file_a, file_b] scan_init = Inr st2"
    by (simp add: scan1 scan2)
  obtain out where out: "assemble set_iter (frames_left env) (length [file_a, file_b]) st2 = Inr out"
    using assemble_returns[of st2 "frames_left env"] frames by (auto simp: edges2)
  have run: "map_dependencies set_iter env inputs = Inr out"
    using exists scan out unfolding map_dependencies_def files by simp
  note fields = assemble_fields[OF out]
  have circ: "circular_dependencies out = [[a, b, a]]"
    using fields(7) two_cycle_general[OF distinct frames]
    by (simp add: edges2 iteration_order_single[OF ord])
  have targets: "set (all_targets set_iter st2) = {a, b}"
    unfolding set_all_targets[OF ord] by (auto simp: edges2)
  have "find_entry_points set_iter st2 = []"
    by (auto simp: find_entry_points_def filter_empty_conv targets nodes2
          iteration_order_set[OF ord])
  then have entry: "entry_points out = []"
    by (simp add: fields(6))
  have len: "length (set_iter [a, b]) = 2"
    by (simp add: iteration_order_length[OF ord])
  have "take 200 (build_graph_nodes set_iter st2)
      = map (\<lambda>n. \<lparr>node_id = n, node_type = ''internal'', node_path = n\<rparr>) (set_iter [a, b])
        @ take 198 (map (\<lambda>n. \<lparr>node_id = n, node_type = ''external'', node_path = n\<rparr>)
                     (set_iter (external_nodes st2)))"
    by (simp add: build_graph_nodes_def nodes2 len)
  then have "\<lparr>node_id = n, node_type = ''internal'', node_path = n\<rparr> \<in> set (nodes (dependency_graph out))"
    if "n \<in> {a, b}" for n
    using that unfolding fields(4) by (auto simp: iteration_order_set[OF ord])
  with run circ entry show ?thesis by blast
qed

theorem mutual_imports_by_node_id_one_cycle_witness:
  "iteration_order (\<lambda>xs. xs)
   \<and> path_exists stdlib_named_environment (source_path scan_proj) = Inr True
   \<and> 2 < frames_left stdlib_named_environment
   \<and> get_source_files stdlib_named_environment (source_path scan_proj) (language scan_proj)
       = [''proj/os.py'', ''proj/json.py'']
   \<and> relative_path_of stdlib_named_environment scan_proj ''proj/os.py'' = Inr ''os.py''
   \<and> relative_path_of stdlib_named_environment scan_proj ''proj/json.py'' = Inr ''json.py''
   \<and> ''os.py'' \<noteq> ''json.py''
   \<and> parse_file_imports stdlib_named_environment ''proj/os.py''
         (file_language stdlib_named_environment scan_proj ''proj/os.py'')
       = Inr [(''json.py'', ''direct'', [''json.py''])]
   \<and> parse_file_imports stdlib_named_environment ''proj/json.py''
         (file_language stdlib_named_environment scan_proj ''proj/json.py'')
       = Inr [(''os.py'', ''direct'', [''os.py''])]
   \<and> set (internal_targets ''proj/os.py''
              (file_language stdlib_named_environment scan_proj ''proj/os.py'')
              [(''json.py'', ''direct'', [''json.py''])]) = {''json.py''}
   \<and> set (internal_targets ''proj/json.py''
              (file_language stdlib_named_environment scan_proj ''proj/json.py'')
              [(''os.py'', ''direct'', [''os.py''])]) = {''os.py''}
   \<and> (\<exists>out. map_dependencies (\<lambda>xs. xs) stdlib_named_environment scan_proj = Inr out
        \<and> circular_dependencies out = [[''os.py'', ''json.py'', ''os.py'']]
        \<and> entry_points out = []
        \<and> \<lparr>node_id = ''os.py'', node_type = ''internal'', node_path = ''os.py''\<rparr>
              \<in> set (nodes (dependency_graph out))
        \<and> \<lparr>node_id = ''json.py'', node_type = ''internal'', node_path = ''json.py''\<rparr>
              \<in> set (nodes (dependency_graph out)))"
proof -
  have exists: "path_exists stdlib_named_environment (source_path scan_proj) = Inr True"
    by code_simp
  have frames: "2 < frames_left stdlib_named_environment"
    by (simp add: stdlib_named_environment_def bare_environment_def)
  have files: "get_source_files stdlib_named_environment (source_path scan_proj) (language scan_proj)
       = [''proj/os.py'', ''proj/json.py'']"
    by code_simp
  have rel_a: "relative_path_of stdlib_named_environment scan_proj ''proj/os.py'' = Inr ''os.py''"
    by code_simp
  have rel_b: "relative_path_of stdlib_named_environment scan_proj ''proj/json.py'' = Inr ''json.py''"
    by code_simp
  have distinct: "''os.py'' \<noteq> ''json.py''"
    by simp
  have imports_a: "parse_file_imports stdlib_named_environment ''proj/os.py''
         (file_language stdlib_named_environment scan_proj ''proj/os.py'')
       = Inr [(''json.py'', ''direct'', [''json.py''])]"
    by code_simp
  have imports_b: "parse_file_imports stdlib_named_environment ''proj/json.py''
         (file_language stdlib_named_environment scan_proj ''proj/json.py'')
       = Inr [(''os.py'', ''direct'', [''os.py''])]"
    by code_simp
  have lang_a: "file_language stdlib_named_environment scan_proj ''proj/os.py'' = ''python''"
    by code_simp
  have lang_b: "file_language stdlib_named_environment scan_proj ''proj/json.py'' = ''python''"
    by code_simp
  have targets_a: "set (internal_targets ''proj/os.py''
              (file_language stdlib_named_environment scan_proj ''proj/os.py'')
              [(''json.py'', ''direct'', [''json.py''])]) = {''json.py''}"
    unfolding lang_a
    by (simp add: internal_targets_def is_external_dependency_def startswith_def
          str_split_def PYTHON_STDLIB_def)
  have targets_b: "set (internal_targets ''proj/json.py''
              (file_language stdlib_named_environment scan_proj ''proj/json.py'')
              [(''os.py'', ''direct'', [''os.py''])]) = {''os.py''}"
    unfolding lang_b
    by (simp add: internal_targets_def is_external_dependency_def startswith_def
          str_split_def PYTHON_STDLIB_def)
  from mutual_imports_by_node_id_one_cycle
    [OF iteration_order_id exists frames files rel_a rel_b distinct imports_a imports_b
        targets_a targets_b]
  show ?thesis
    using iteration_order_id exists frames files rel_a rel_b imports_a imports_b targets_a targets_b
    by simp
qed

text \<open>
  The claim C3 as stated fails on two JavaScript files that import each other by
  relative specifiers: both imports are classified internal, the targets \<open>./b\<close> and
  \<open>./a\<close> are nodes of their own, no cycle is reported and both files are entry points.
\<close>

theorem relative_imports_no_cycle_counterexample:
  "\<not> is_external_dependency ''./b'' ''javascript'' ''proj/a.js''
   \<and> \<not> is_external_dependency ''./a'' ''javascript'' ''proj/b.js''
   \<and> (\<exists>out. map_dependencies (\<lambda>xs. xs) relative_js_environment scan_proj = Inr out
        \<and> internal_dependencies out =
            [\<lparr>dep_source = ''a.js'', dep_target = ''./b'',
               import_type = ''default'', symbols = [''b'']\<rparr>,
             \<lparr>dep_source = ''b.js'', dep_target = ''./a'',
               import_type = ''default'', symbols = [''a'']\<rparr>]
        \<and> circular_dependencies out = []
        \<and> entry_points out = [''a.js'', ''b.js''])"
  using relative_js_scan_output
  by (simp add: is_external_dependency_def startswith_def)

text \<open>
  The same holds in every iteration order of the sets: no cycle, and the two files are
  the entry points.
\<close>

lemma relative_imports_no_cycle_any_order:
  assumes ord: "iteration_order set_iter"
  shows "\<exists>out. map_dependencies set_iter relative_js_environment scan_proj = Inr out
     \<and> circular_dependencies out = []
     \<and> set (entry_points out) = {''a.js'', ''b.js''}"
proof -
  let ?env = relative_js_environment
  have exists: "path_exists ?env (source_path scan_proj) = Inr True"
    by code_simp
  have frames: "frames_left ?env = 900"
    by (simp add: relative_js_environment_def bare_environment_def)
  have files: "get_source_files ?env (source_path scan_proj) (language scan_proj)
       = [''proj/a.js'', ''proj/b.js'']"
    by code_simp
  have rel_a: "relative_path_of ?env scan_proj ''proj/a.js'' = Inr ''a.js''"
    by code_simp
  have rel_b: "relative_path_of ?env scan_proj ''proj/b.js'' = Inr ''b.js''"
    by code_simp
  have lang_a: "file_language ?env scan_proj ''proj/a.js'' = ''javascript''"
    by code_simp
  have lang_b: "file_language ?env scan_proj ''proj/b.js'' = ''javascript''"
    by code_simp
  have imports_a: "parse_file_imports ?env ''proj/a.js'' (file_language ?env scan_proj ''proj/a.js'')
       = Inr [(''./b'', ''default'', [''b''])]"
    by code_simp
  have imports_b: "parse_file_imports ?env ''proj/b.js'' (file_language ?env scan_proj ''proj/b.js'')
       = Inr [(''./a'', ''default'', [''a''])]"
    by code_simp
  have targets_a: "internal_targets ''proj/a.js'' (file_language ?env scan_proj ''proj/a.js'')
       [(''./b'', ''default'', [''b''])] = [''./b'']"
    unfolding lang_a
    by (simp add: internal_targets_def is_external_dependency_def startswith_def)
  have targets_b: "internal_targets ''proj/b.js'' (file_language ?env scan_proj ''proj/b.js'')
       [(''./a'', ''default'', [''a''])] = [''./a'']"
    unfolding lang_b
    by (simp add: internal_targets_def is_external_dependency_def startswith_def)
  from scan_file_edges[OF imports_a rel_a, of scan_init]
  obtain st1 where scan1: "scan_file ?env scan_proj ''proj/a.js'' scan_init = Inr st1"
    and edges1: "edge_sets st1 = [(''a.js'', [''./b''])]"
    and nodes1: "all_nodes st1 = [''a.js'', ''./b'']"
    unfolding targets_a
    by (auto simp: add_edge_def dict_default_def set_add_def scan_init_def)
  from scan_file_edges[OF imports_b rel_b, of st1]
  obtain st2 where scan2: "scan_file ?env scan_proj ''proj/b.js'' st1 = Inr st2"
    and edges2: "edge_sets st2 = [(''a.js'', [''./b'']), (''b.js'', [''./a''])]"
    and nodes2: "all_nodes st2 = [''a.js'', ''./b'', ''b.js'', ''./a'']"
    unfolding targets_b edges1 nodes1
    by (auto simp: add_edge_def dict_default_def set_add_def)
  have scan: "scan_files ?env scan_proj [''proj/a.js'', ''proj/b.js''] scan_init = Inr st2"
    by (simp add: scan1 scan2)
  obtain out where out: "assemble set_iter 900 (length [''proj/a.js'', ''proj/b.js'']) st2 = Inr out"
    using assemble_returns[of st2 900] by (auto simp: edges2)
  have run: "map_dependencies set_iter ?env scan_proj = Inr out"
    using exists scan out frames unfolding map_dependencies_def files by simp
  note fields = assemble_fields[OF out]
  have no_cycle: "find_circular_dependencies 900 [(''a.js'', [''./b'']), (''b.js'', [''./a''])] = Inr []"
    by code_simp
  have circ: "circular_dependencies out = []"
    using fields(7) no_cycle by (simp add: edges2 iteration_order_single[OF ord])
  have targets: "set (all_targets set_iter st2) = {''./b'', ''./a''}"
    unfolding set_all_targets[OF ord] by (auto simp: edges2)
  have "length (find_entry_points set_iter st2) \<le> length (set_iter (all_nodes st2))"
    unfolding find_entry_points_def by (rule length_filter_le)
  then have "length (find_entry_points set_iter st2) \<le> 20"
    by (simp add: iteration_order_length[OF ord] nodes2)
  then have "entry_points out = find_entry_points set_iter st2"
    by (simp add: fields(6))
  moreover have "set (find_entry_points set_iter st2) = {''a.js'', ''b.js''}"
    by (auto simp: find_entry_points_def targets nodes2 edges2 iteration_order_set[OF ord])
  ultimately show ?thesis using run circ by auto
qed

end
